theory Spec2Isabelle
  imports Complex_Main "HOL-Library.Log_Nat" "HOL-Library.Multiset"
begin

section \<open>Double-precision arithmetic\<close>

text \<open>
  Python's \<^verbatim>\<open>float\<close> is an IEEE 754 double. A finite double is modelled by the rational
  number it denotes, and every arithmetic operation of the source is the exact operation
  followed by \<open>fl\<close>, rounding to 53 significant bits, ties to even. The exponent range is
  not bounded: overflow and subnormal numbers do not arise for the image dimensions and
  timings below. An integer operand is taken as it is: integers below \<open>2^53\<close> convert to
  a double exactly, and the true division of two integers is rounded once.
\<close>

definition pow2 :: "int \<Rightarrow> rat" where
  "pow2 k = (if 0 \<le> k then 2 ^ nat k else 1 / 2 ^ nat (- k))"

definition binade :: "rat \<Rightarrow> int" where
  \<comment> \<open>for \<open>x > 0\<close>, the exponent \<open>e\<close> with \<open>2^e \<le> x < 2^(e+1)\<close>\<close>
  "binade x =
     (let (a, b) = quotient_of x;
          d = bitlen a - bitlen b
      in if pow2 d \<le> x then d else d - 1)"

definition round_half_even :: "rat \<Rightarrow> int" where
  "round_half_even y =
     (let f = \<lfloor>y\<rfloor>; r = y - of_int f
      in if r < 1 / 2 then f
         else if 1 / 2 < r then f + 1
         else if even f then f else f + 1)"

definition fl_pos :: "rat \<Rightarrow> rat" where
  "fl_pos x = (let u = pow2 (binade x - 52) in of_int (round_half_even (x / u)) * u)"

definition fl :: "rat \<Rightarrow> rat" where
  "fl x = (if x = 0 then 0 else if x < 0 then - fl_pos (- x) else fl_pos x)"

definition py_int :: "rat \<Rightarrow> int" where
  \<comment> \<open>\<^verbatim>\<open>int(x)\<close> and \<^verbatim>\<open>astype(int)\<close>: truncation towards zero\<close>
  "py_int x = (if 0 \<le> x then \<lfloor>x\<rfloor> else \<lceil>x\<rceil>)"

section \<open>Exceptions\<close>

datatype exception =
    RuntimeError string
  | ZeroDivisionError
  | ValueError string
  | cv2_error string
  | AttributeError string
  | OtherException string

fun str_exception :: "exception \<Rightarrow> string" where
  "str_exception (RuntimeError m) = m"
| "str_exception ZeroDivisionError = ''division by zero''"
| "str_exception (ValueError m) = m"
| "str_exception (cv2_error m) = m"
| "str_exception (AttributeError m) = m"
| "str_exception (OtherException m) = m"

section \<open>Configuration (config.py)\<close>

text \<open>
  The module reads the environment once at import. The environment variables and the
  two hardware probes of \<^verbatim>\<open>detect_gpu_availability\<close> are the fields of \<open>settings\<close>;
  the module-level constants are derived from them as in the source.
\<close>

record settings =
  env_AUTO_DETECT_GPU :: bool
  env_FORCE_CPU :: bool
  env_GPU_DEVICE_ID :: int
  env_MIN_FACE_SIZE :: int
  env_ENABLE_MEMORY_OPTIMIZATION :: bool
  env_ENABLE_PARALLEL_PROCESSING :: bool
  env_MAX_WORKERS :: "int option"
  torch_cuda_is_available :: bool
  ort_available_providers :: "string list"

definition FORCE_CPU :: "settings \<Rightarrow> bool" where
  "FORCE_CPU cfg = env_FORCE_CPU cfg"

definition has_cuda :: "settings \<Rightarrow> bool" where
  "has_cuda cfg =
     (if env_AUTO_DETECT_GPU cfg \<and> \<not> FORCE_CPU cfg then torch_cuda_is_available cfg else False)"

definition has_gpu_onnx :: "settings \<Rightarrow> bool" where
  "has_gpu_onnx cfg =
     (if env_AUTO_DETECT_GPU cfg \<and> \<not> FORCE_CPU cfg
      then ''CUDAExecutionProvider'' \<in> set (ort_available_providers cfg)
         \<or> ''TensorrtExecutionProvider'' \<in> set (ort_available_providers cfg)
      else False)"

definition GPU_AVAILABLE :: "settings \<Rightarrow> bool" where
  "GPU_AVAILABLE cfg = ((has_cuda cfg \<or> has_gpu_onnx cfg) \<and> \<not> FORCE_CPU cfg)"

definition CUDA_AVAILABLE :: "settings \<Rightarrow> bool" where
  "CUDA_AVAILABLE cfg = (has_cuda cfg \<and> \<not> FORCE_CPU cfg)"

definition ONNX_GPU_AVAILABLE :: "settings \<Rightarrow> bool" where
  "ONNX_GPU_AVAILABLE cfg = (has_gpu_onnx cfg \<and> \<not> FORCE_CPU cfg)"

definition GPU_DEVICE_ID :: "settings \<Rightarrow> int" where
  "GPU_DEVICE_ID cfg = env_GPU_DEVICE_ID cfg"

definition MIN_FACE_SIZE :: "settings \<Rightarrow> int" where
  "MIN_FACE_SIZE cfg = env_MIN_FACE_SIZE cfg"

definition ENABLE_MEMORY_OPTIMIZATION :: "settings \<Rightarrow> bool" where
  "ENABLE_MEMORY_OPTIMIZATION cfg = env_ENABLE_MEMORY_OPTIMIZATION cfg"

definition MAX_WORKERS :: "settings \<Rightarrow> int" where
  "MAX_WORKERS cfg =
     (case env_MAX_WORKERS cfg of Some n \<Rightarrow> n | None \<Rightarrow> if GPU_AVAILABLE cfg then 4 else 2)"

definition get_onnx_providers :: "settings \<Rightarrow> string list" where
  \<comment> \<open>the provider names, in order; the tuning dictionaries are not used by the processor\<close>
  "get_onnx_providers cfg =
     (if ONNX_GPU_AVAILABLE cfg
      then filter (\<lambda>p. p \<in> set (ort_available_providers cfg))
             [''TensorrtExecutionProvider'', ''CUDAExecutionProvider'', ''DmlExecutionProvider'']
      else [])
     @ [''CPUExecutionProvider'']"

definition ONNX_PROVIDERS :: "settings \<Rightarrow> string list" where
  "ONNX_PROVIDERS cfg = get_onnx_providers cfg"

definition default_settings :: settings where
  \<comment> \<open>no environment variable set, no accelerator found\<close>
  "default_settings =
     \<lparr>env_AUTO_DETECT_GPU = True, env_FORCE_CPU = False, env_GPU_DEVICE_ID = 0,
      env_MIN_FACE_SIZE = 50, env_ENABLE_MEMORY_OPTIMIZATION = True,
      env_ENABLE_PARALLEL_PROCESSING = True, env_MAX_WORKERS = None,
      torch_cuda_is_available = False, ort_available_providers = [''CPUExecutionProvider'']\<rparr>"

section \<open>Images, detections and the opaque collaborators\<close>

text \<open>
  An image is its shape and an opaque pixel payload. \<^verbatim>\<open>cv2.resize\<close> rejects an empty
  source and an empty target size with \<^verbatim>\<open>cv2.error\<close>; otherwise the result has the
  requested size and pixels computed by the resampling filter, which is a parameter.
\<close>

record 'px image =
  height :: nat
  width :: nat
  pixels :: 'px

record raw_face =
  face_bbox :: "rat \<times> rat \<times> rat \<times> rat"
  face_det_score :: rat
  face_embedding :: "rat list"
  face_kps :: "rat list list option"
  face_age :: "int option"
  face_gender :: "int option"

record face_info =
  bbox :: "int \<times> int \<times> int \<times> int"
  confidence :: rat
  embedding :: "rat list"
  landmarks :: "rat list list option"
  age :: "int option"
  gender :: "string option"

text \<open>
  A raw face is the object that the model returns for one detection: \<open>face_bbox\<close> holds
  the corners \<open>x1, y1, x2, y2\<close>, and an attribute that the object does not have is \<open>None\<close>.
  A loaded model is its method \<^verbatim>\<open>get\<close>. The environment holds what the process finds
  outside the repository: whether \<^verbatim>\<open>import insightface\<close> raises, the loader of the model,
  the memory readings of torch (allocated, reserved and total; \<open>None\<close> when torch is
  missing, CUDA is unavailable or a reading raises) and the resampling filter of OpenCV.
\<close>

type_synonym 'px face_analysis = "'px image \<Rightarrow> exception + raw_face list"

record 'px environment =
  import_insightface :: "exception option"
  FaceAnalysis_prepare :: "string list \<Rightarrow> int \<Rightarrow> nat \<times> nat \<Rightarrow> exception + 'px face_analysis"
  torch_cuda_memory :: "(nat \<times> nat \<times> nat) option"
  INTER_LANCZOS4 :: "'px image \<Rightarrow> int \<times> int \<Rightarrow> 'px"

definition cv2_resize ::
  "'px environment \<Rightarrow> 'px image \<Rightarrow> int \<times> int \<Rightarrow> exception + 'px image" where
  "cv2_resize env img dsize =
     (let (new_width, new_height) = dsize in
      if height img = 0 \<or> width img = 0 then Inl (cv2_error ''!ssize.empty()'')
      else if new_width \<le> 0 \<or> new_height \<le> 0 then Inl (cv2_error ''!dsize.empty()'')
      else Inr \<lparr>height = nat new_height, width = nat new_width,
                pixels = INTER_LANCZOS4 env img dsize\<rparr>)"

definition ascontiguousarray :: "'px image \<Rightarrow> 'px image" where
  \<comment> \<open>changes the memory layout only\<close>
  "ascontiguousarray img = img"

section \<open>The heap of statistics dictionaries\<close>

text \<open>
  \<^verbatim>\<open>self.processing_stats\<close> is a reference to a mutable dictionary, and
  \<^verbatim>\<open>get_performance_stats\<close> hands out another one. Dictionaries therefore live in a
  heap and are named by addresses. The keys are fixed, so a dictionary is a record; the
  key \<^verbatim>\<open>faces_per_second\<close> may be absent. The value of \<^verbatim>\<open>gpu_memory_usage\<close> is the
  integer 0 until \<^verbatim>\<open>_log_gpu_memory\<close> binds the key to a freshly built dictionary, which
  the source never updates in place; it is held by value.
\<close>

datatype gpu_memory =
    Zero
  | Usage (allocated_mb: rat) (reserved_mb: rat) (total_mb: rat) (utilization_percent: rat)

record stats_dict =
  total_processed :: int
  total_faces_detected :: int
  average_processing_time :: rat
  gpu_memory_usage :: gpu_memory
  faces_per_second :: "rat option"

type_synonym addr = nat

record heap =
  cells :: "addr \<Rightarrow> stats_dict"
  next_addr :: addr

definition alloc :: "stats_dict \<Rightarrow> heap \<Rightarrow> addr \<times> heap" where
  "alloc d h = (next_addr h, h\<lparr>cells := (cells h)(next_addr h := d), next_addr := Suc (next_addr h)\<rparr>)"

definition store :: "addr \<Rightarrow> stats_dict \<Rightarrow> heap \<Rightarrow> heap" where
  "store a d h = h\<lparr>cells := (cells h)(a := d)\<rparr>"

definition initial_stats :: stats_dict where
  "initial_stats =
     \<lparr>total_processed = 0, total_faces_detected = 0, average_processing_time = 0,
      gpu_memory_usage = Zero, faces_per_second = None\<rparr>"

definition empty_heap :: heap where
  "empty_heap = \<lparr>cells = (\<lambda>_. initial_stats), next_addr = 0\<rparr>"

section \<open>FaceProcessor (face\_processor.py)\<close>

text \<open>
  A processor is the object's attributes; the statistics dictionary is an address into the
  heap. Every method takes the heap and returns the new one, and a raised exception is
  the left summand of the result. Calls of the logger, and \<^verbatim>\<open>_cleanup_gpu_memory\<close>, which
  swallows its own exceptions, do not touch this state and are left out. The loader
  \<open>FaceAnalysis_prepare\<close> of the environment stands for the constructor
  \<^verbatim>\<open>insightface.app.FaceAnalysis\<close> followed by \<^verbatim>\<open>prepare\<close>: either may raise, and the
  object is used only if both return.
\<close>

record 'px face_processor =
  app :: "'px face_analysis option"
  model_loaded :: bool
  using_gpu :: bool
  device_info :: string
  processing_stats :: addr

fun str_nat :: "nat \<Rightarrow> string" where
  "str_nat n =
     (if n < 10 then [char_of (48 + n)]
      else str_nat (n div 10) @ [char_of (48 + n mod 10)])"

definition str_int :: "int \<Rightarrow> string" where
  "str_int i = (if i < 0 then CHR ''-'' # str_nat (nat (- i)) else str_nat (nat i))"

definition py_truediv :: "rat \<Rightarrow> rat \<Rightarrow> exception + rat" where
  "py_truediv a b = (if b = 0 then Inl ZeroDivisionError else Inr (fl (a / b)))"

definition log_gpu_memory ::
  "settings \<Rightarrow> 'px environment \<Rightarrow> 'px face_processor \<Rightarrow> heap \<Rightarrow> heap" where
  \<comment> \<open>every exception inside is swallowed; the key is rebound only if the whole
      dictionary display was evaluated\<close>
  "log_gpu_memory cfg env self h =
     (if CUDA_AVAILABLE cfg then
        (case torch_cuda_memory env of
           None \<Rightarrow> h
         | Some (allocated, reserved, total_memory) \<Rightarrow>
             (case py_truediv (of_nat allocated) (of_nat total_memory) of
                Inl e \<Rightarrow> h
              | Inr ratio \<Rightarrow>
                  store (processing_stats self)
                    ((cells h (processing_stats self))
                       \<lparr>gpu_memory_usage :=
                          Usage (fl (fl (of_nat allocated / 1024) / 1024))
                                (fl (fl (of_nat reserved / 1024) / 1024))
                                (fl (fl (of_nat total_memory / 1024) / 1024))
                                (fl (ratio * 100))\<rparr>) h))
      else h)"

definition fallback_to_cpu ::
  "'px environment \<Rightarrow> 'px face_processor \<Rightarrow> heap \<Rightarrow> exception + 'px face_processor \<times> heap" where
  "fallback_to_cpu env self h =
     (case import_insightface env of
        Some e \<Rightarrow>
          Inl (RuntimeError (''Both GPU and CPU initialization failed: '' @ str_exception e))
      | None \<Rightarrow>
          (let self1 = self\<lparr>using_gpu := False, device_info := ''CPU (fallback)''\<rparr> in
           case FaceAnalysis_prepare env [''CPUExecutionProvider''] (- 1) (640, 640) of
             Inl e \<Rightarrow>
               Inl (RuntimeError (''Both GPU and CPU initialization failed: '' @ str_exception e))
           | Inr a \<Rightarrow> Inr (self1\<lparr>app := Some a, model_loaded := True\<rparr>, h)))"

definition initialize_failed ::
  "'px environment \<Rightarrow> 'px face_processor \<Rightarrow> heap \<Rightarrow> exception
     \<Rightarrow> exception + 'px face_processor \<times> heap" where
  \<comment> \<open>the \<^verbatim>\<open>except\<close> clause of \<^verbatim>\<open>_initialize_model\<close>\<close>
  "initialize_failed env self h e =
     (if using_gpu self then fallback_to_cpu env self h
      else Inl (RuntimeError (''Model initialization failed: '' @ str_exception e)))"

definition gpu_device_info :: "settings \<Rightarrow> string" where
  "gpu_device_info cfg =
     (if CUDA_AVAILABLE cfg then ''GPU '' @ str_int (GPU_DEVICE_ID cfg) @ '' (CUDA)''
      else if ONNX_GPU_AVAILABLE cfg then ''GPU '' @ str_int (GPU_DEVICE_ID cfg) @ '' (ONNX)''
      else ''GPU '' @ str_int (GPU_DEVICE_ID cfg))"

definition choose_device :: "settings \<Rightarrow> 'px face_processor \<Rightarrow> int \<times> 'px face_processor \<times> string list" where
  \<comment> \<open>"Determine device and context": \<open>(ctx_id, self, providers)\<close>\<close>
  "choose_device cfg self =
     (if FORCE_CPU cfg \<or> \<not> GPU_AVAILABLE cfg
      then (- 1, self\<lparr>device_info := ''CPU'', using_gpu := False\<rparr>, [''CPUExecutionProvider''])
      else (GPU_DEVICE_ID cfg,
            self\<lparr>using_gpu := True, device_info := gpu_device_info cfg\<rparr>,
            ONNX_PROVIDERS cfg))"

definition det_size_for :: "'px face_processor \<Rightarrow> nat \<times> nat" where
  "det_size_for self = (if \<not> using_gpu self then (640, 640) else (1024, 1024))"

definition initialize_model ::
  "settings \<Rightarrow> 'px environment \<Rightarrow> 'px face_processor \<Rightarrow> heap
     \<Rightarrow> exception + 'px face_processor \<times> heap" where
  "initialize_model cfg env self h =
     (case import_insightface env of
        Some e \<Rightarrow> initialize_failed env self h e
      | None \<Rightarrow>
          (let (ctx_id, self1, providers) = choose_device cfg self;
               det_size = det_size_for self1
           in case FaceAnalysis_prepare env providers ctx_id det_size of
                Inl e \<Rightarrow> initialize_failed env self1 h e
              | Inr a \<Rightarrow>
                  (let self2 = self1\<lparr>app := Some a, model_loaded := True\<rparr> in
                   Inr (self2, if using_gpu self2 then log_gpu_memory cfg env self2 h else h))))"

definition FaceProcessor ::
  "settings \<Rightarrow> 'px environment \<Rightarrow> heap \<Rightarrow> exception + 'px face_processor \<times> heap" where
  \<comment> \<open>\<^verbatim>\<open>__init__\<close>\<close>
  "FaceProcessor cfg env h =
     (let (a, h1) = alloc initial_stats h
      in initialize_model cfg env
           \<lparr>app = None, model_loaded = False, using_gpu = False, device_info = '''',
            processing_stats = a\<rparr> h1)"

subsection \<open>Image normalisation\<close>

definition max_dim_for :: "'px face_processor \<Rightarrow> nat" where
  "max_dim_for self = (if using_gpu self then 1920 else 1024)"

definition optimize_image_for_processing ::
  "settings \<Rightarrow> 'px environment \<Rightarrow> 'px face_processor \<Rightarrow> 'px image \<Rightarrow> exception + 'px image" where
  "optimize_image_for_processing cfg env self img =
     (let max_dim = max_dim_for self;
          resized =
            (if max (height img) (width img) > max_dim then
               (let scale = fl (of_nat max_dim / of_nat (max (height img) (width img)));
                    new_width = py_int (fl (of_nat (width img) * scale));
                    new_height = py_int (fl (of_nat (height img) * scale))
                in cv2_resize env img (new_width, new_height))
             else Inr img)
      in case resized of
           Inl e \<Rightarrow> Inl e
         | Inr image1 \<Rightarrow>
             Inr (if using_gpu self \<and> ENABLE_MEMORY_OPTIMIZATION cfg
                  then ascontiguousarray image1 else image1))"

subsection \<open>Detection\<close>

definition face_width :: "raw_face \<Rightarrow> int" where
  "face_width face = (case face_bbox face of (x1, y1, x2, y2) \<Rightarrow> py_int x2 - py_int x1)"

definition face_height :: "raw_face \<Rightarrow> int" where
  "face_height face = (case face_bbox face of (x1, y1, x2, y2) \<Rightarrow> py_int y2 - py_int y1)"

definition valid_face :: "settings \<Rightarrow> raw_face \<Rightarrow> bool" where
  "valid_face cfg face =
     (face_width face \<ge> MIN_FACE_SIZE cfg \<and> face_height face \<ge> MIN_FACE_SIZE cfg)"

definition make_face_info :: "raw_face \<Rightarrow> face_info" where
  "make_face_info face =
     (case face_bbox face of (x1, y1, x2, y2) \<Rightarrow>
        \<lparr>bbox = (py_int x1, py_int y1, face_width face, face_height face),
         confidence = face_det_score face,
         embedding = face_embedding face,
         landmarks = face_kps face,
         age = face_age face,
         gender = (case face_gender face of
                     Some g \<Rightarrow> if g = 1 then Some ''M'' else Some ''F''
                   | None \<Rightarrow> None)\<rparr>)"

fun filter_faces :: "settings \<Rightarrow> raw_face list \<Rightarrow> face_info list" where
  \<comment> \<open>the loop over \<^verbatim>\<open>faces\<close>, appending to \<^verbatim>\<open>valid_faces\<close>\<close>
  "filter_faces cfg [] = []"
| "filter_faces cfg (face # faces) =
     (if valid_face cfg face then make_face_info face # filter_faces cfg faces
      else filter_faces cfg faces)"

definition smoothed_average :: "rat \<Rightarrow> rat \<Rightarrow> rat" where
  "smoothed_average avg processing_time =
     (if avg = 0 then processing_time
      else fl (fl (avg * fl (9 / 10)) + fl (processing_time * fl (1 / 10))))"

definition update_stats :: "addr \<Rightarrow> nat \<Rightarrow> rat \<Rightarrow> heap \<Rightarrow> heap" where
  "update_stats a n processing_time h =
     (let d = cells h a;
          d1 = d\<lparr>total_processed := total_processed d + 1\<rparr>;
          d2 = d1\<lparr>total_faces_detected := total_faces_detected d1 + int n\<rparr>;
          d3 = d2\<lparr>average_processing_time :=
                     smoothed_average (average_processing_time d2) processing_time\<rparr>
      in store a d3 h)"

definition detect_faces_try ::
  "settings \<Rightarrow> 'px environment \<Rightarrow> 'px face_processor \<Rightarrow> heap \<Rightarrow> 'px image \<Rightarrow> rat \<Rightarrow> rat
     \<Rightarrow> exception + face_info list \<times> heap" where
  \<comment> \<open>the body of the \<^verbatim>\<open>try\<close>; the two clock readings are \<open>start_time\<close> and the
      second call of \<^verbatim>\<open>time.time()\<close>\<close>
  "detect_faces_try cfg env self h img start_time end_time =
     (case optimize_image_for_processing cfg env self img of
        Inl e \<Rightarrow> Inl e
      | Inr optimized_image \<Rightarrow>
          (case app self of
             None \<Rightarrow> Inl (AttributeError ''NoneType object has no attribute get'')
           | Some get \<Rightarrow>
               (case get optimized_image of
                  Inl e \<Rightarrow> Inl e
                | Inr faces \<Rightarrow>
                    (let valid_faces = filter_faces cfg faces;
                         processing_time = fl (end_time - start_time)
                     in Inr (valid_faces,
                             update_stats (processing_stats self) (length valid_faces)
                               processing_time h)))))"

definition detect_faces ::
  "settings \<Rightarrow> 'px environment \<Rightarrow> 'px face_processor \<Rightarrow> heap \<Rightarrow> 'px image \<Rightarrow> rat \<Rightarrow> rat
     \<Rightarrow> exception + face_info list \<times> heap" where
  "detect_faces cfg env self h img start_time end_time =
     (if \<not> model_loaded self then Inl (RuntimeError ''Face model not loaded'')
      else case detect_faces_try cfg env self h img start_time end_time of
             Inl e \<Rightarrow> Inr ([], h)
           | Inr r \<Rightarrow> Inr r)"

subsection \<open>Performance statistics\<close>

definition get_performance_stats ::
  "settings \<Rightarrow> 'px environment \<Rightarrow> 'px face_processor \<Rightarrow> heap \<Rightarrow> exception + addr \<times> heap" where
  "get_performance_stats cfg env self h =
     (let (stats, h1) = alloc (cells h (processing_stats self)) h;
          h2 = (if using_gpu self then log_gpu_memory cfg env self h1 else h1)
      in if average_processing_time (cells h2 stats) > 0 then
           (case py_truediv 1 (average_processing_time (cells h2 stats)) of
              Inl e \<Rightarrow> Inl e
            | Inr fps \<Rightarrow> Inr (stats, store stats ((cells h2 stats)\<lparr>faces_per_second := Some fps\<rparr>) h2))
         else Inr (stats, h2))"

section \<open>Face comparison (app.py)\<close>

text \<open>
  A \<^verbatim>\<open>float64\<close> is a finite double, given by the rational number it denotes, an infinity
  or NaN. \<open>round64\<close> rounds an exact result to the nearest double, ties to even, with the
  exponent range of the format: below \<open>2^-1022\<close> the spacing is \<open>2^-1074\<close>, and a result
  that rounds to \<open>2^1024\<close> or more is an infinity. In the normal range it agrees with \<open>fl\<close>.
  The two zeros are not told apart: the only zero divisor below is a product of norms,
  which is never the negative zero.
\<close>

datatype float64 = Finite rat | PosInf | NegInf | NaN

definition round64 :: "rat \<Rightarrow> float64" where
  "round64 x =
     (if x = 0 then Finite 0
      else
        (let a = \<bar>x\<bar>;
             k = max (binade a - 52) (- 1074);
             r = of_int (round_half_even (a / pow2 k)) * pow2 k
         in if 2 ^ 1024 \<le> r then (if 0 < x then PosInf else NegInf)
            else Finite (if 0 < x then r else - r)))"

fun f64_add :: "float64 \<Rightarrow> float64 \<Rightarrow> float64" where
  "f64_add (Finite a) (Finite b) = round64 (a + b)"
| "f64_add NaN _ = NaN"
| "f64_add _ NaN = NaN"
| "f64_add PosInf NegInf = NaN"
| "f64_add NegInf PosInf = NaN"
| "f64_add PosInf _ = PosInf"
| "f64_add NegInf _ = NegInf"
| "f64_add (Finite a) PosInf = PosInf"
| "f64_add (Finite a) NegInf = NegInf"

fun f64_negate :: "float64 \<Rightarrow> float64" where
  "f64_negate (Finite a) = Finite (- a)"
| "f64_negate PosInf = NegInf"
| "f64_negate NegInf = PosInf"
| "f64_negate NaN = NaN"

fun f64_mul :: "float64 \<Rightarrow> float64 \<Rightarrow> float64" where
  "f64_mul (Finite a) (Finite b) = round64 (a * b)"
| "f64_mul NaN _ = NaN"
| "f64_mul _ NaN = NaN"
| "f64_mul (Finite a) y = (if a = 0 then NaN else if 0 < a then y else f64_negate y)"
| "f64_mul x (Finite b) = (if b = 0 then NaN else if 0 < b then x else f64_negate x)"
| "f64_mul PosInf y = y"
| "f64_mul NegInf y = f64_negate y"

fun f64_div :: "float64 \<Rightarrow> float64 \<Rightarrow> float64" where
  "f64_div (Finite a) (Finite b) =
     (if b = 0 then (if a = 0 then NaN else if 0 < a then PosInf else NegInf)
      else round64 (a / b))"
| "f64_div NaN _ = NaN"
| "f64_div _ NaN = NaN"
| "f64_div (Finite a) _ = Finite 0"
| "f64_div x (Finite b) = (if 0 \<le> b then x else f64_negate x)"
| "f64_div _ _ = NaN"

fun isqrt_bits :: "nat \<Rightarrow> int \<Rightarrow> int \<Rightarrow> int" where
  \<comment> \<open>the integer square root of \<open>n\<close>, one binary digit at a time from position \<open>b - 1\<close> down\<close>
  "isqrt_bits 0 n r = r"
| "isqrt_bits (Suc b) n r =
     isqrt_bits b n (if (r + 2 ^ b) * (r + 2 ^ b) \<le> n then r + 2 ^ b else r)"

definition isqrt :: "int \<Rightarrow> int" where
  "isqrt n = isqrt_bits (nat (bitlen n)) n 0"

definition sqrt_rounded :: "rat \<Rightarrow> rat" where
  \<comment> \<open>for \<open>a > 0\<close>, the double nearest to the square root of \<open>a\<close>: the root lies in the
      binade \<open>binade a div 2\<close>, and is compared with the midpoint of its two neighbours\<close>
  "sqrt_rounded a =
     (let k = binade a div 2 - 52;
          q = a / pow2 (2 * k);
          m = isqrt \<lfloor>q\<rfloor>;
          mid = (of_int m + 1 / 2) * (of_int m + 1 / 2);
          n = (if q < mid then m else if mid < q then m + 1 else if even m then m else m + 1)
      in of_int n * pow2 k)"

fun f64_sqrt :: "float64 \<Rightarrow> float64" where
  "f64_sqrt (Finite a) =
     (if a < 0 then NaN else if a = 0 then Finite 0 else Finite (sqrt_rounded a))"
| "f64_sqrt PosInf = PosInf"
| "f64_sqrt NegInf = NaN"
| "f64_sqrt NaN = NaN"

text \<open>
  Python's \<^verbatim>\<open>list.sort\<close> compares keys with \<^verbatim>\<open><\<close> only, and every comparison with NaN
  is false.
\<close>

fun float_lt :: "float64 \<Rightarrow> float64 \<Rightarrow> bool" where
  "float_lt (Finite a) (Finite b) = (a < b)"
| "float_lt (Finite a) PosInf = True"
| "float_lt NegInf (Finite b) = True"
| "float_lt NegInf PosInf = True"
| "float_lt _ _ = False"

text \<open>
  numpy on one-dimensional \<^verbatim>\<open>float64\<close> arrays. \<^verbatim>\<open>np.dot\<close> raises \<^verbatim>\<open>ValueError\<close> on vectors
  of different lengths; otherwise every product and every partial sum is rounded. The sums
  are taken in the order of the index; an optimised library may group them otherwise or
  fuse a product with a sum, which can change the last digits, and in the evaluations
  below every product and every sum is exact.
  \<^verbatim>\<open>np.linalg.norm\<close> is the rounded square root of the dot product of the vector with
  itself. Multiplication and division are numpy's: a zero divisor gives NaN or an
  infinity, not an exception.
\<close>

definition dot_float64 :: "float64 list \<Rightarrow> float64 list \<Rightarrow> float64" where
  "dot_float64 a b = foldl f64_add (Finite 0) (map2 f64_mul a b)"

definition np_dot :: "float64 list \<Rightarrow> float64 list \<Rightarrow> exception + float64" where
  "np_dot a b =
     (if length a \<noteq> length b then Inl (ValueError ''shapes not aligned'')
      else Inr (dot_float64 a b))"

definition np_linalg_norm :: "float64 list \<Rightarrow> float64" where
  "np_linalg_norm x = f64_sqrt (dot_float64 x x)"

definition cosine_similarity :: "float64 list \<Rightarrow> float64 list \<Rightarrow> exception + float64" where
  "cosine_similarity selfie_embedding stored_embedding =
     (case np_dot selfie_embedding stored_embedding of
        Inl e \<Rightarrow> Inl e
      | Inr d \<Rightarrow>
          Inr (f64_div d (f64_mul (np_linalg_norm selfie_embedding)
                                  (np_linalg_norm stored_embedding))))"

record 'id stored_face =
  stored_photoId :: 'id
  stored_embedding :: "float64 list"

record 'id match =
  photoId :: 'id
  similarity :: float64

fun calculate_similarities ::
  "(float64 list \<Rightarrow> float64 list \<Rightarrow> exception + float64) \<Rightarrow> float64 list \<Rightarrow> 'id stored_face list
     \<Rightarrow> exception + 'id match list" where
  \<comment> \<open>the loop over \<^verbatim>\<open>embeddings\<close>; an exception leaves it\<close>
  "calculate_similarities sim selfie_embedding [] = Inr []"
| "calculate_similarities sim selfie_embedding (stored # embeddings) =
     (case sim selfie_embedding (stored_embedding stored) of
        Inl e \<Rightarrow> Inl e
      | Inr s \<Rightarrow>
          (case calculate_similarities sim selfie_embedding embeddings of
             Inl e \<Rightarrow> Inl e
           | Inr matches \<Rightarrow> Inr (\<lparr>photoId = stored_photoId stored, similarity = s\<rparr> # matches)))"

text \<open>
  \<^verbatim>\<open>matches.sort(key=..., reverse=True)\<close> is stable: matches with equal keys keep their
  order. On keys without NaN every stable descending sort returns the list computed here.
\<close>

fun insert_descending :: "'id match \<Rightarrow> 'id match list \<Rightarrow> 'id match list" where
  "insert_descending x [] = [x]"
| "insert_descending x (y # ys) =
     (if float_lt (similarity x) (similarity y) then y # insert_descending x ys
      else x # y # ys)"

fun sort_reverse :: "'id match list \<Rightarrow> 'id match list" where
  "sort_reverse [] = []"
| "sort_reverse (x # xs) = insert_descending x (sort_reverse xs)"

datatype 'id response =
    Matches "'id match list"
  | ErrorResponse nat string

definition compare_faces_with ::
  "(float64 list \<Rightarrow> float64 list \<Rightarrow> exception + float64) \<Rightarrow> float64 list \<Rightarrow> 'id stored_face list
     \<Rightarrow> 'id response" where
  \<comment> \<open>\<^verbatim>\<open>compare_faces\<close> from the embedding of the first detected face on, with the
      similarity computation as a parameter\<close>
  "compare_faces_with sim selfie_embedding embeddings =
     (if embeddings = [] then ErrorResponse 400 ''selfieData and embeddings are required''
      else case calculate_similarities sim selfie_embedding embeddings of
             Inl e \<Rightarrow> ErrorResponse 500 (str_exception e)
           | Inr matches \<Rightarrow> Matches (sort_reverse matches))"

definition compare_faces :: "float64 list \<Rightarrow> 'id stored_face list \<Rightarrow> 'id response" where
  "compare_faces = compare_faces_with cosine_similarity"

definition descending :: "float64 list \<Rightarrow> bool" where
  \<comment> \<open>no element is NaN, and none is less than a later one\<close>
  "descending ks = (NaN \<notin> set ks \<and> sorted_wrt (\<lambda>a b. \<not> float_lt a b) ks)"

section \<open>Admission to processing (app.py)\<close>

text \<open>
  Requests are served by concurrent threads. Each call of \<^verbatim>\<open>process_photo\<close> first creates
  a \<^verbatim>\<open>threading.Semaphore(MAX_WORKERS)\<close> of its own, then enters the \<^verbatim>\<open>with\<close> block by
  acquiring it, which blocks while its counter is 0, processes the photo, and releases it
  on leaving. A server state holds the position of every request and the counter of every
  semaphore created so far; \<open>step i\<close> lets request \<open>i\<close> take its next step, and is \<open>None\<close>
  if the request is blocked or has returned. \<^verbatim>\<open>MAX_WORKERS\<close> is the constant of app.py.
\<close>

definition app_MAX_WORKERS :: nat where
  "app_MAX_WORKERS = 2"

datatype request_pc =
    Entered
  | Created nat
  | Processing nat
  | Returned

record server =
  requests :: "request_pc list"
  semaphores :: "nat list"

definition step :: "nat \<Rightarrow> server \<Rightarrow> server option" where
  "step i s =
     (if i < length (requests s) then
        (case requests s ! i of
           Entered \<Rightarrow>
             Some \<lparr>requests = (requests s)[i := Created (length (semaphores s))],
                   semaphores = semaphores s @ [app_MAX_WORKERS]\<rparr>
         | Created k \<Rightarrow>
             if k < length (semaphores s) \<and> 0 < semaphores s ! k
             then Some \<lparr>requests = (requests s)[i := Processing k],
                        semaphores = (semaphores s)[k := semaphores s ! k - 1]\<rparr>
             else None
         | Processing k \<Rightarrow>
             if k < length (semaphores s)
             then Some \<lparr>requests = (requests s)[i := Returned],
                        semaphores = (semaphores s)[k := semaphores s ! k + 1]\<rparr>
             else None
         | Returned \<Rightarrow> None)
      else None)"

fun run :: "nat list \<Rightarrow> server \<Rightarrow> server option" where
  "run [] s = Some s"
| "run (i # schedule) s = (case step i s of None \<Rightarrow> None | Some s' \<Rightarrow> run schedule s')"

definition arrivals :: "nat \<Rightarrow> server" where
  "arrivals n = \<lparr>requests = replicate n Entered, semaphores = []\<rparr>"

fun is_processing :: "request_pc \<Rightarrow> bool" where
  "is_processing (Processing k) = True"
| "is_processing _ = False"

definition admitted :: "server \<Rightarrow> nat" where
  "admitted s = length (filter is_processing (requests s))"

section \<open>Notions used in the statements\<close>

text \<open>
  The words of the specification on initialisation: a backend is what is handed to the
  loader (providers, context and detection size); the preferred backend is the CPU one if
  forced or if no accelerator was detected, and else the accelerator with the enlarged
  detection size; a backend fails to load if the library cannot be imported or the
  loader raises.
\<close>

definition cpu_backend :: "string list \<times> int \<times> nat \<times> nat" where
  "cpu_backend = ([''CPUExecutionProvider''], - 1, (640, 640))"

definition preferred_backend :: "settings \<Rightarrow> string list \<times> int \<times> nat \<times> nat" where
  "preferred_backend cfg =
     (if FORCE_CPU cfg \<or> \<not> GPU_AVAILABLE cfg then cpu_backend
      else (ONNX_PROVIDERS cfg, GPU_DEVICE_ID cfg, (1024, 1024)))"

definition fails_to_load :: "'px environment \<Rightarrow> string list \<times> int \<times> nat \<times> nat \<Rightarrow> bool" where
  "fails_to_load env backend =
     (case backend of (providers, ctx_id, det_size) \<Rightarrow>
        import_insightface env \<noteq> None \<or> isl (FaceAnalysis_prepare env providers ctx_id det_size))"

text \<open>
  The new length of an edge \<open>d\<close> of an image whose longer edge is \<open>longest\<close>, as
  \<^verbatim>\<open>_optimize_image_for_processing\<close> computes it: \<^verbatim>\<open>int(d * (max_dim / longest))\<close>.
\<close>

definition scaled_edge :: "nat \<Rightarrow> nat \<Rightarrow> nat \<Rightarrow> int" where
  "scaled_edge max_dim longest d =
     py_int (fl (of_nat d * fl (of_nat max_dim / of_nat longest)))"

definition match_of ::
  "(float64 list \<Rightarrow> float64 list \<Rightarrow> exception + float64) \<Rightarrow> float64 list \<Rightarrow> 'id stored_face \<Rightarrow> 'id match" where
  \<comment> \<open>the match that the loop builds for a stored face whose similarity is computed without
      an exception\<close>
  "match_of sim selfie_embedding stored =
     \<lparr>photoId = stored_photoId stored,
      similarity = projr (sim selfie_embedding (stored_embedding stored))\<rparr>"

section \<open>Concrete sessions used for evaluation\<close>

definition demo_environment :: "unit environment" where
  "demo_environment =
     \<lparr>import_insightface = None,
      FaceAnalysis_prepare = (\<lambda>providers ctx_id det_size. Inr (\<lambda>img. Inr [])),
      torch_cuda_memory = None,
      INTER_LANCZOS4 = (\<lambda>img dsize. ())\<rparr>"

definition demo_image :: "unit image" where
  "demo_image = \<lparr>height = 480, width = 640, pixels = ()\<rparr>"

definition faulty_processor :: "unit face_processor" where
  \<comment> \<open>a loaded CPU session whose model raises on every image\<close>
  "faulty_processor =
     \<lparr>app = Some (\<lambda>img. Inl (OtherException ''inference failed'')), model_loaded = True,
      using_gpu = False, device_info = ''CPU'', processing_stats = 0\<rparr>"

definition boundary_face :: raw_face where
  \<comment> \<open>50 pixels wide, 55 pixels high\<close>
  "boundary_face =
     \<lparr>face_bbox = (10, 20, 60, 75), face_det_score = 9 / 10, face_embedding = [1, 0],
      face_kps = None, face_age = Some 30, face_gender = Some 1\<rparr>"

definition small_face :: raw_face where
  \<comment> \<open>49 pixels wide, 70 pixels high\<close>
  "small_face =
     \<lparr>face_bbox = (10, 20, 59, 90), face_det_score = 8 / 10, face_embedding = [0, 1],
      face_kps = None, face_age = None, face_gender = None\<rparr>"

definition demo_processor :: "unit face_processor" where
  \<comment> \<open>a loaded CPU session whose model finds the two faces above in every image\<close>
  "demo_processor =
     \<lparr>app = Some (\<lambda>img. Inr [boundary_face, small_face]), model_loaded = True,
      using_gpu = False, device_info = ''CPU'', processing_stats = 0\<rparr>"

definition fresh_heap :: heap where
  \<comment> \<open>the heap after \<^verbatim>\<open>__init__\<close> has created the statistics of one session, at address 0\<close>
  "fresh_heap = snd (alloc initial_stats empty_heap)"

definition quarter_second_heap :: heap where
  \<comment> \<open>the same heap after one detection of a quarter of a second that found one face\<close>
  "quarter_second_heap =
     store 0 (initial_stats\<lparr>total_processed := 1, total_faces_detected := 1,
                average_processing_time := 1 / 4\<rparr>) fresh_heap"

definition gpu_settings :: settings where
  "gpu_settings =
     default_settings\<lparr>torch_cuda_is_available := True,
       ort_available_providers := [''CUDAExecutionProvider'', ''CPUExecutionProvider'']\<rparr>"

definition cpu_only_environment :: "unit environment" where
  "cpu_only_environment =
     demo_environment\<lparr>FaceAnalysis_prepare :=
       (\<lambda>providers ctx_id det_size.
          if ctx_id = - 1 then Inr (\<lambda>img. Inr []) else Inl (OtherException ''CUDA driver missing''))\<rparr>"

definition broken_environment :: "unit environment" where
  "broken_environment =
     demo_environment\<lparr>FaceAnalysis_prepare :=
       (\<lambda>providers ctx_id det_size. Inl (OtherException ''model weights missing''))\<rparr>"

definition wide_image :: "unit image" where
  "wide_image = \<lparr>height = 600, width = 1122, pixels = ()\<rparr>"

definition sliver_image :: "unit image" where
  "sliver_image = \<lparr>height = 1, width = 5000, pixels = ()\<rparr>"

definition axis_faces :: "nat stored_face list" where
  "axis_faces =
     [\<lparr>stored_photoId = 1, stored_embedding = [Finite 0, Finite 1]\<rparr>,
      \<lparr>stored_photoId = 2, stored_embedding = [Finite 1, Finite 0]\<rparr>]"

definition faces_with_zero :: "nat stored_face list" where
  "faces_with_zero =
     [\<lparr>stored_photoId = 1, stored_embedding = [Finite 0, Finite 0]\<rparr>,
      \<lparr>stored_photoId = 2, stored_embedding = [Finite 1, Finite 0]\<rparr>]"

definition fractional_face :: raw_face where
  \<comment> \<open>truncated corners 10, 20, 60, 75: exactly 50 wide, 55 high\<close>
  "fractional_face =
     \<lparr>face_bbox = (109 / 10, 41 / 2, 301 / 5, 757 / 10), face_det_score = 9 / 10,
      face_embedding = [1, 0], face_kps = None, face_age = Some 30, face_gender = Some 1\<rparr>"

definition narrow_face :: raw_face where
  \<comment> \<open>49 wide after truncation, 70 high\<close>
  "narrow_face =
     \<lparr>face_bbox = (10, 20, 599 / 10, 90), face_det_score = 8 / 10,
      face_embedding = [0, 1], face_kps = None, face_age = None, face_gender = None\<rparr>"

definition short_face :: raw_face where
  \<comment> \<open>70 wide, 49 high after truncation\<close>
  "short_face =
     \<lparr>face_bbox = (10, 20, 80, 699 / 10), face_det_score = 7 / 10,
      face_embedding = [1, 1], face_kps = None, face_age = None, face_gender = Some 0\<rparr>"

definition edge_face :: raw_face where
  \<comment> \<open>the left corner is outside the image: truncated towards zero to 0, so 49 wide\<close>
  "edge_face =
     \<lparr>face_bbox = (- 1 / 2, 20, 99 / 2, 90), face_det_score = 6 / 10,
      face_embedding = [0, 0], face_kps = None, face_age = None, face_gender = None\<rparr>"

definition four_face_processor :: "unit face_processor" where
  "four_face_processor =
     \<lparr>app = Some (\<lambda>img. Inr [narrow_face, fractional_face, short_face, edge_face]),
      model_loaded = True, using_gpu = False, device_info = ''CPU'', processing_stats = 0\<rparr>"

definition gpu_demo_processor :: "unit face_processor" where
  \<comment> \<open>a loaded accelerator session\<close>
  "gpu_demo_processor =
     \<lparr>app = Some (\<lambda>img. Inr []), model_loaded = True, using_gpu = True,
      device_info = ''GPU 0 (CUDA)'', processing_stats = 0\<rparr>"

definition hd_image :: "unit image" where
  "hd_image = \<lparr>height = 1080, width = 1920, pixels = ()\<rparr>"

section \<open>Detection: failures of the model\<close>

lemma optimize_within_bounds:
  "max (height img) (width img) \<le> max_dim_for self \<Longrightarrow>
   optimize_image_for_processing cfg env self img = Inr img"
  by (auto simp add: optimize_image_for_processing_def ascontiguousarray_def Let_def)

text \<open>
  C1. If the model raises during a call of \<open>detect_faces\<close> on a loaded session, the call
  returns the empty list (and leaves the heap as it was); the only exception that
  \<open>detect_faces\<close> itself raises is the \<open>RuntimeError\<close> of a session that is not loaded.
\<close>

theorem detect_faces_swallows_model_exceptions:
  "(\<forall>get img' e.
      model_loaded self \<and> app self = Some get
      \<and> optimize_image_for_processing cfg env self img = Inr img' \<and> get img' = Inl e
      \<longrightarrow> detect_faces cfg env self h img start_time end_time = Inr ([], h))
   \<and> (\<forall>e. detect_faces cfg env self h img start_time end_time = Inl e
          \<longrightarrow> \<not> model_loaded self \<and> e = RuntimeError ''Face model not loaded'')"
  by (auto simp: detect_faces_def detect_faces_try_def split: sum.splits option.splits)

theorem detect_faces_swallows_model_exceptions_witness:
  "model_loaded faulty_processor
   \<and> app faulty_processor = Some (\<lambda>img. Inl (OtherException ''inference failed''))
   \<and> optimize_image_for_processing default_settings demo_environment faulty_processor demo_image
       = Inr demo_image
   \<and> detect_faces default_settings demo_environment faulty_processor empty_heap demo_image 0 1
       = Inr ([], empty_heap)"
proof -
  have opt: "optimize_image_for_processing default_settings demo_environment faulty_processor
      demo_image = Inr demo_image"
    by (rule optimize_within_bounds) (simp add: max_dim_for_def faulty_processor_def demo_image_def)
  have "detect_faces default_settings demo_environment faulty_processor empty_heap demo_image 0 1
      = Inr ([], empty_heap)"
    using detect_faces_swallows_model_exceptions
      [of faulty_processor default_settings demo_environment demo_image empty_heap 0 1] opt
    by (simp add: faulty_processor_def)
  with opt show ?thesis by (simp add: faulty_processor_def)
qed

section \<open>Detection: the size filter\<close>

lemma filter_faces_eq: "filter_faces cfg faces = map make_face_info (filter (valid_face cfg) faces)"
  by (induction faces) simp_all

lemma make_face_info_size:
  "make_face_info f = make_face_info g \<Longrightarrow>
   face_width f = face_width g \<and> face_height f = face_height g"
  by (auto simp: make_face_info_def split: prod.splits)

lemma detect_faces_result:
  assumes "model_loaded self" "app self = Some get"
    "optimize_image_for_processing cfg env self img = Inr img'" "get img' = Inr faces"
  shows "detect_faces cfg env self h img start_time end_time =
     Inr (filter_faces cfg faces,
          update_stats (processing_stats self) (length (filter_faces cfg faces))
            (fl (end_time - start_time)) h)"
  using assms by (simp add: detect_faces_def detect_faces_try_def Let_def)

lemma demo_optimize:
  "optimize_image_for_processing default_settings demo_environment demo_processor demo_image
     = Inr demo_image"
  by (rule optimize_within_bounds) (simp add: max_dim_for_def demo_processor_def demo_image_def)

lemma demo_face_sizes:
  "face_width boundary_face = 50" "face_height boundary_face = 55"
  "face_width small_face = 49" "face_height small_face = 70"
  by (simp_all add: face_width_def face_height_def boundary_face_def small_face_def py_int_def)

lemma py_int_values:
  "py_int (109 / 10) = 10" "py_int (41 / 2) = 20" "py_int (301 / 5) = 60" "py_int (757 / 10) = 75"
  "py_int (599 / 10) = 59" "py_int (699 / 10) = 69" "py_int (- (1 / 2)) = 0" "py_int (99 / 2) = 49"
  "py_int 10 = 10" "py_int 20 = 20" "py_int 80 = 80" "py_int 90 = 90"
  by code_simp+

lemma four_face_optimize:
  "optimize_image_for_processing default_settings demo_environment four_face_processor demo_image
     = Inr demo_image"
  by (rule optimize_within_bounds) (simp add: max_dim_for_def four_face_processor_def demo_image_def)

text \<open>
  C3. When the model returns its detections, the result of \<open>detect_faces\<close> is the list of
  records of exactly those detections whose bounding box, with every corner truncated to
  an integer, is at least \<open>MIN_FACE_SIZE\<close> wide (\<open>x2 - x1\<close>) and at least \<open>MIN_FACE_SIZE\<close>
  high (\<open>y2 - y1\<close>), in the model's order: the record of a detection is in the result if
  and only if both differences reach the minimum, equality included. In the witness one
  face is exactly 50 wide, one fails on the width only, one on the height only, and one
  has a corner left of the image.
\<close>

theorem detect_faces_keeps_exactly_large_faces:
  assumes "model_loaded self" and "app self = Some get"
    and "optimize_image_for_processing cfg env self img = Inr img'"
    and "get img' = Inr faces"
  shows "\<exists>res h'. detect_faces cfg env self h img start_time end_time = Inr (res, h')
          \<and> res = map make_face_info
                (filter (\<lambda>face. case face_bbox face of (x1, y1, x2, y2) \<Rightarrow>
                           MIN_FACE_SIZE cfg \<le> py_int x2 - py_int x1
                           \<and> MIN_FACE_SIZE cfg \<le> py_int y2 - py_int y1) faces)
          \<and> (\<forall>face \<in> set faces. \<forall>x1 y1 x2 y2. face_bbox face = (x1, y1, x2, y2) \<longrightarrow>
                (make_face_info face \<in> set res
                 \<longleftrightarrow> MIN_FACE_SIZE cfg \<le> py_int x2 - py_int x1
                     \<and> MIN_FACE_SIZE cfg \<le> py_int y2 - py_int y1))"
proof -
  have v: "valid_face cfg = (\<lambda>face. case face_bbox face of (x1, y1, x2, y2) \<Rightarrow>
                           MIN_FACE_SIZE cfg \<le> py_int x2 - py_int x1
                           \<and> MIN_FACE_SIZE cfg \<le> py_int y2 - py_int y1)"
    by (auto simp: valid_face_def face_width_def face_height_def fun_eq_iff split: prod.splits)
  have "make_face_info face \<in> set (map make_face_info (filter (valid_face cfg) faces))
        \<longleftrightarrow> MIN_FACE_SIZE cfg \<le> py_int x2 - py_int x1 \<and> MIN_FACE_SIZE cfg \<le> py_int y2 - py_int y1"
    if "face \<in> set faces" and b: "face_bbox face = (x1, y1, x2, y2)" for face x1 y1 x2 y2
  proof
    assume "make_face_info face \<in> set (map make_face_info (filter (valid_face cfg) faces))"
    then obtain g where "valid_face cfg g" "make_face_info g = make_face_info face" by auto
    then have "valid_face cfg face"
      using make_face_info_size [of g face] by (simp add: valid_face_def)
    then show "MIN_FACE_SIZE cfg \<le> py_int x2 - py_int x1 \<and> MIN_FACE_SIZE cfg \<le> py_int y2 - py_int y1"
      using b by (simp add: v)
  next
    assume "MIN_FACE_SIZE cfg \<le> py_int x2 - py_int x1 \<and> MIN_FACE_SIZE cfg \<le> py_int y2 - py_int y1"
    then have "valid_face cfg face" using b by (simp add: v)
    with that(1) show "make_face_info face \<in> set (map make_face_info (filter (valid_face cfg) faces))"
      by simp
  qed
  then show ?thesis
    using detect_faces_result [OF assms] unfolding v [symmetric] by (simp add: filter_faces_eq)
qed

theorem detect_faces_keeps_exactly_large_faces_witness:
  "model_loaded four_face_processor
   \<and> app four_face_processor = Some (\<lambda>img. Inr [narrow_face, fractional_face, short_face, edge_face])
   \<and> optimize_image_for_processing default_settings demo_environment four_face_processor demo_image
        = Inr demo_image
   \<and> MIN_FACE_SIZE default_settings = 50
   \<and> face_bbox narrow_face = (10, 20, 599 / 10, 90)
   \<and> face_bbox fractional_face = (109 / 10, 41 / 2, 301 / 5, 757 / 10)
   \<and> face_bbox short_face = (10, 20, 80, 699 / 10)
   \<and> face_bbox edge_face = (- 1 / 2, 20, 99 / 2, 90)
   \<and> map_sum id fst
        (detect_faces default_settings demo_environment four_face_processor empty_heap demo_image 0 1)
        = Inr [\<lparr>bbox = (10, 20, 50, 55), confidence = 9 / 10, embedding = [1, 0],
                landmarks = None, age = Some 30, gender = Some ''M''\<rparr>]"
proof -
  let ?faces = "[narrow_face, fractional_face, short_face, edge_face]"
  let ?get = "\<lambda>img :: unit image. Inr ?faces :: exception + raw_face list"
  have pre: "model_loaded four_face_processor" "app four_face_processor = Some ?get"
    by (simp_all add: four_face_processor_def)
  have m: "MIN_FACE_SIZE default_settings = 50"
    by (simp add: MIN_FACE_SIZE_def default_settings_def)
  have b: "face_bbox narrow_face = (10, 20, 599 / 10, 90)"
    "face_bbox fractional_face = (109 / 10, 41 / 2, 301 / 5, 757 / 10)"
    "face_bbox short_face = (10, 20, 80, 699 / 10)"
    "face_bbox edge_face = (- 1 / 2, 20, 99 / 2, 90)"
    by (simp_all add: narrow_face_def fractional_face_def short_face_def edge_face_def)
  have f: "filter (\<lambda>face. case face_bbox face of (x1, y1, x2, y2) \<Rightarrow>
                           MIN_FACE_SIZE default_settings \<le> py_int x2 - py_int x1
                           \<and> MIN_FACE_SIZE default_settings \<le> py_int y2 - py_int y1) ?faces
      = [fractional_face]"
    by (simp add: m b py_int_values)
  have r: "make_face_info fractional_face
      = \<lparr>bbox = (10, 20, 50, 55), confidence = 9 / 10, embedding = [1, 0],
                landmarks = None, age = Some 30, gender = Some ''M''\<rparr>"
    by (simp add: make_face_info_def face_width_def face_height_def fractional_face_def
        py_int_values)
  from detect_faces_keeps_exactly_large_faces [OF pre(1) pre(2) four_face_optimize,
      of ?faces empty_heap 0 1]
  have "map_sum id fst
        (detect_faces default_settings demo_environment four_face_processor empty_heap demo_image 0 1)
        = Inr [make_face_info fractional_face]"
    unfolding f by auto
  with pre four_face_optimize m b r show ?thesis by simp
qed

section \<open>Detection: the statistics\<close>

lemma fl_fifth: "fl (2 / 10) = 3602879701896397 / 18014398509481984"
  by code_simp

lemma fl_fifth_elapsed: "fl (fl (2 / 10) - 0) = fl (2 / 10)"
  by code_simp

lemma fl_tenth_elapsed: "fl (fl (1 / 10) - 0) = fl (1 / 10)"
  by code_simp

lemma smoothed_average_scenario:
  "smoothed_average (fl (2 / 10)) (fl (1 / 10)) = 6845471433603155 / 36028797018963968"
  by code_simp

lemma fl_nineteen_hundredths: "fl (19 / 100) = 6845471433603154 / 36028797018963968"
  by code_simp

text \<open>
  C2, as the claim states it, fails: a call in which the model raises returns through the
  \<open>except\<close> clause and leaves \<open>total_processed\<close> at 0; and the double-precision value of
  \<open>0.2 * 0.9 + 0.1 * 0.1\<close> is not the double \<open>0.19\<close>.
\<close>

theorem detect_faces_skips_stats_on_fault:
  "(case detect_faces default_settings demo_environment faulty_processor empty_heap demo_image
           0 (fl (2 / 10)) of
      Inl e \<Rightarrow> None
    | Inr (faces, h') \<Rightarrow> Some (faces, total_processed (cells h' (processing_stats faulty_processor))))
     = Some ([], 0)
   \<and> total_processed (cells empty_heap (processing_stats faulty_processor)) = 0
   \<and> smoothed_average (fl (2 / 10)) (fl (1 / 10)) \<noteq> fl (19 / 100)"
proof -
  have "optimize_image_for_processing default_settings demo_environment faulty_processor
      demo_image = Inr demo_image"
    by (rule optimize_within_bounds) (simp add: max_dim_for_def faulty_processor_def demo_image_def)
  then have "detect_faces default_settings demo_environment faulty_processor empty_heap demo_image
           0 (fl (2 / 10)) = Inr ([], empty_heap)"
    by (simp add: detect_faces_def detect_faces_try_def faulty_processor_def)
  moreover have "smoothed_average (fl (2 / 10)) (fl (1 / 10)) \<noteq> fl (19 / 100)"
    unfolding smoothed_average_scenario fl_nineteen_hundredths by simp
  ultimately show ?thesis by (simp add: empty_heap_def initial_stats_def)
qed

text \<open>
  C2, amended. On a loaded session whose normalisation succeeds: if the model returns,
  \<open>total_processed\<close> grows by 1, \<open>total_faces_detected\<close> by the length of the result, and
  the average becomes the elapsed time if it was 0 and otherwise the double-precision value
  of \<open>previous * 0.9 + elapsed * 0.1\<close>; if the model raises, the result is empty and the
  heap is unchanged. The witness runs the scenario of the specification: 0.2 s, then 0.1 s.
\<close>

theorem detect_faces_updates_stats_on_success:
  assumes "model_loaded self" and "app self = Some get"
    and "optimize_image_for_processing cfg env self img = Inr img'"
  shows "(\<forall>faces. get img' = Inr faces \<longrightarrow>
           (\<exists>res h'. detect_faces cfg env self h img start_time end_time = Inr (res, h')
              \<and> total_processed (cells h' (processing_stats self))
                  = total_processed (cells h (processing_stats self)) + 1
              \<and> total_faces_detected (cells h' (processing_stats self))
                  = total_faces_detected (cells h (processing_stats self)) + int (length res)
              \<and> average_processing_time (cells h' (processing_stats self))
                  = (if average_processing_time (cells h (processing_stats self)) = 0
                     then fl (end_time - start_time)
                     else fl (fl (average_processing_time (cells h (processing_stats self)) * fl (9 / 10))
                              + fl (fl (end_time - start_time) * fl (1 / 10))))))
       \<and> (\<forall>e. get img' = Inl e \<longrightarrow>
             detect_faces cfg env self h img start_time end_time = Inr ([], h))"
  using assms
  by (auto simp: detect_faces_def detect_faces_try_def Let_def update_stats_def store_def
      smoothed_average_def)

theorem detect_faces_updates_stats_on_success_witness:
  "model_loaded demo_processor
   \<and> app demo_processor = Some (\<lambda>img. Inr [boundary_face, small_face])
   \<and> optimize_image_for_processing default_settings demo_environment demo_processor demo_image
        = Inr demo_image
   \<and> (case detect_faces default_settings demo_environment demo_processor empty_heap demo_image
              0 (fl (2 / 10)) of
         Inl e \<Rightarrow> None
       | Inr (res1, h1) \<Rightarrow>
           (case detect_faces default_settings demo_environment demo_processor h1 demo_image
                   0 (fl (1 / 10)) of
              Inl e \<Rightarrow> None
            | Inr (res2, h2) \<Rightarrow>
                Some (average_processing_time (cells h1 0), total_processed (cells h2 0),
                      total_faces_detected (cells h2 0), average_processing_time (cells h2 0))))
      = Some (fl (2 / 10), 2, 2, 6845471433603155 / 36028797018963968)"
proof -
  let ?get = "\<lambda>img :: unit image. Inr [boundary_face, small_face] :: exception + raw_face list"
  have pre: "model_loaded demo_processor" "app demo_processor = Some ?get"
    "processing_stats demo_processor = 0"
    by (simp_all add: demo_processor_def)
  have len: "length (filter_faces default_settings [boundary_face, small_face]) = 1"
    by (simp add: valid_face_def demo_face_sizes MIN_FACE_SIZE_def default_settings_def)
  note step = detect_faces_updates_stats_on_success [OF pre(1) pre(2) demo_optimize, THEN conjunct1,
      rule_format, of "[boundary_face, small_face]"]
  from step [of empty_heap 0 "fl (2 / 10)"] obtain res1 h1 where
    c1: "detect_faces default_settings demo_environment demo_processor empty_heap demo_image
           0 (fl (2 / 10)) = Inr (res1, h1)"
    and p1: "total_processed (cells h1 0) = 1"
    and f1: "total_faces_detected (cells h1 0) = int (length res1)"
    and a1: "average_processing_time (cells h1 0) = fl (fl (2 / 10) - 0)"
    unfolding pre(3) by (auto simp: empty_heap_def initial_stats_def)
  from c1 have r1: "res1 = filter_faces default_settings [boundary_face, small_face]"
    using detect_faces_result [OF pre(1) pre(2) demo_optimize, of "[boundary_face, small_face]"
        empty_heap 0 "fl (2 / 10)"] by simp
  have a1': "average_processing_time (cells h1 0) = fl (2 / 10)"
    unfolding a1 fl_fifth_elapsed ..
  have nz: "fl (2 / 10) \<noteq> 0" unfolding fl_fifth by simp
  from step [of h1 0 "fl (1 / 10)"] obtain res2 h2 where
    c2: "detect_faces default_settings demo_environment demo_processor h1 demo_image
           0 (fl (1 / 10)) = Inr (res2, h2)"
    and p2: "total_processed (cells h2 0) = 2"
    and f2: "total_faces_detected (cells h2 0) = int (length res1) + int (length res2)"
    and a2: "average_processing_time (cells h2 0)
              = fl (fl (fl (2 / 10) * fl (9 / 10)) + fl (fl (fl (1 / 10) - 0) * fl (1 / 10)))"
    unfolding pre(3) p1 f1 a1' using nz by auto
  from c2 have r2: "res2 = filter_faces default_settings [boundary_face, small_face]"
    using detect_faces_result [OF pre(1) pre(2) demo_optimize, of "[boundary_face, small_face]"
        h1 0 "fl (1 / 10)"] by simp
  have a2': "average_processing_time (cells h2 0) = 6845471433603155 / 36028797018963968"
    unfolding a2 fl_tenth_elapsed using smoothed_average_scenario nz
    unfolding smoothed_average_def by simp
  have "(case detect_faces default_settings demo_environment demo_processor empty_heap demo_image
              0 (fl (2 / 10)) of
         Inl e \<Rightarrow> None
       | Inr (res1, h1) \<Rightarrow>
           (case detect_faces default_settings demo_environment demo_processor h1 demo_image
                   0 (fl (1 / 10)) of
              Inl e \<Rightarrow> None
            | Inr (res2, h2) \<Rightarrow>
                Some (average_processing_time (cells h1 0), total_processed (cells h2 0),
                      total_faces_detected (cells h2 0), average_processing_time (cells h2 0))))
      = Some (fl (2 / 10), 2, 2, 6845471433603155 / 36028797018963968)"
    unfolding c1 c2 sum.case prod.case a1' p2 f2 a2' r1 r2 len by simp
  with pre demo_optimize show ?thesis by simp
qed

section \<open>Performance statistics\<close>

lemma log_gpu_memory_other:
  "a \<noteq> processing_stats self \<Longrightarrow> cells (log_gpu_memory cfg env self h) a = cells h a"
  by (simp add: log_gpu_memory_def store_def split: option.splits sum.splits prod.splits)

lemma log_gpu_memory_counters:
  "total_processed (cells (log_gpu_memory cfg env self h) a) = total_processed (cells h a)"
  "total_faces_detected (cells (log_gpu_memory cfg env self h) a) = total_faces_detected (cells h a)"
  "average_processing_time (cells (log_gpu_memory cfg env self h) a)
     = average_processing_time (cells h a)"
  "faces_per_second (cells (log_gpu_memory cfg env self h) a) = faces_per_second (cells h a)"
  by (simp_all add: log_gpu_memory_def store_def split: option.splits sum.splits prod.splits)

lemma heap_facts:
  "next_addr fresh_heap = 1" "next_addr quarter_second_heap = 1"
  "cells fresh_heap 0 = initial_stats"
  "cells quarter_second_heap 0 = initial_stats\<lparr>total_processed := 1, total_faces_detected := 1,
                average_processing_time := 1 / 4\<rparr>"
  by (simp_all add: fresh_heap_def quarter_second_heap_def alloc_def store_def empty_heap_def)

lemma fl_four: "fl (1 / (1 / 4)) = 4"
  by code_simp

text \<open>
  C9. \<open>get_performance_stats\<close> returns the address of a new dictionary, different from
  the session's own, holding the same counters. Whatever is then stored at the returned
  address, the session's \<open>total_processed\<close>, \<open>total_faces_detected\<close> and
  \<open>average_processing_time\<close> are as before the call; on a CPU session the session's
  whole dictionary is as before the call. The only hypothesis is that the session's
  reference points to an allocated dictionary, as every Python reference does.
\<close>

theorem get_performance_stats_returns_copy:
  assumes "processing_stats self < next_addr h"
  shows "\<exists>stats h'. get_performance_stats cfg env self h = Inr (stats, h')
      \<and> stats \<noteq> processing_stats self
      \<and> total_processed (cells h' stats) = total_processed (cells h (processing_stats self))
      \<and> total_faces_detected (cells h' stats) = total_faces_detected (cells h (processing_stats self))
      \<and> average_processing_time (cells h' stats)
           = average_processing_time (cells h (processing_stats self))
      \<and> (\<forall>d. total_processed (cells (store stats d h') (processing_stats self))
                = total_processed (cells h (processing_stats self))
            \<and> total_faces_detected (cells (store stats d h') (processing_stats self))
                = total_faces_detected (cells h (processing_stats self))
            \<and> average_processing_time (cells (store stats d h') (processing_stats self))
                = average_processing_time (cells h (processing_stats self)))
      \<and> (\<not> using_gpu self \<longrightarrow>
            cells h' (processing_stats self) = cells h (processing_stats self)
            \<and> (\<forall>d. cells (store stats d h') (processing_stats self) = cells h (processing_stats self)))"
  using assms
  by (auto simp: get_performance_stats_def alloc_def store_def Let_def py_truediv_def
      log_gpu_memory_other log_gpu_memory_counters split: sum.splits)

theorem get_performance_stats_returns_copy_witness:
  "processing_stats (faulty_processor :: unit face_processor) < next_addr quarter_second_heap
   \<and> \<not> using_gpu faulty_processor
   \<and> (case get_performance_stats default_settings demo_environment faulty_processor
             quarter_second_heap of
         Inl e \<Rightarrow> False
       | Inr (stats, h') \<Rightarrow>
           stats = 1
           \<and> total_processed (cells h' stats) = 1
           \<and> cells (store stats initial_stats h') 0 = cells quarter_second_heap 0
           \<and> cells h' 0 = cells quarter_second_heap 0)"
proof -
  have pre: "processing_stats faulty_processor < next_addr quarter_second_heap"
    "\<not> using_gpu faulty_processor" "processing_stats faulty_processor = 0"
    by (simp_all add: faulty_processor_def heap_facts)
  from get_performance_stats_returns_copy [OF pre(1), of default_settings demo_environment]
  obtain stats h' where
    r: "get_performance_stats default_settings demo_environment faulty_processor
          quarter_second_heap = Inr (stats, h')"
    and t: "total_processed (cells h' stats) = total_processed (cells quarter_second_heap 0)"
    and c: "cells h' 0 = cells quarter_second_heap 0"
      "\<And>d. cells (store stats d h') 0 = cells quarter_second_heap 0"
    using pre(2) unfolding pre(3) by auto
  have "stats = 1"
    using r by (auto simp: get_performance_stats_def alloc_def heap_facts Let_def
        split: if_splits sum.splits)
  with r t c pre show ?thesis by (simp add: heap_facts)
qed

text \<open>
  C10. \<open>get_performance_stats\<close> never raises. The returned dictionary has the key
  \<open>faces_per_second\<close>, with the double-precision value of \<open>1.0 / average\<close>, exactly when
  the average is positive; otherwise the key is absent, and no division takes place. The
  session's own dictionary never has that key.
\<close>

theorem get_performance_stats_faces_per_second:
  assumes "processing_stats self < next_addr h"
    and "faces_per_second (cells h (processing_stats self)) = None"
  shows "\<exists>stats h'. get_performance_stats cfg env self h = Inr (stats, h')
      \<and> faces_per_second (cells h' stats)
          = (if average_processing_time (cells h (processing_stats self)) > 0
             then Some (fl (1 / average_processing_time (cells h (processing_stats self))))
             else None)"
  using assms
  by (auto simp: get_performance_stats_def alloc_def store_def Let_def py_truediv_def
      log_gpu_memory_other log_gpu_memory_counters split: sum.splits)

theorem get_performance_stats_faces_per_second_witness:
  "processing_stats (faulty_processor :: unit face_processor) < next_addr quarter_second_heap
   \<and> faces_per_second (cells quarter_second_heap (processing_stats faulty_processor)) = None
   \<and> faces_per_second (cells fresh_heap (processing_stats faulty_processor)) = None
   \<and> (case get_performance_stats default_settings demo_environment faulty_processor
             quarter_second_heap of
         Inl e \<Rightarrow> None
       | Inr (stats, h') \<Rightarrow> Some (faces_per_second (cells h' stats))) = Some (Some 4)
   \<and> (case get_performance_stats default_settings demo_environment faulty_processor fresh_heap of
         Inl e \<Rightarrow> None
       | Inr (stats, h') \<Rightarrow> Some (faces_per_second (cells h' stats))) = Some None"
proof -
  have pre: "processing_stats faulty_processor < next_addr quarter_second_heap"
    "processing_stats faulty_processor < next_addr fresh_heap"
    "faces_per_second (cells quarter_second_heap (processing_stats faulty_processor)) = None"
    "faces_per_second (cells fresh_heap (processing_stats faulty_processor)) = None"
    by (simp_all add: faulty_processor_def heap_facts initial_stats_def)
  have avg:
    "average_processing_time (cells quarter_second_heap (processing_stats faulty_processor)) = 1 / 4"
    "average_processing_time (cells fresh_heap (processing_stats faulty_processor)) = 0"
    by (simp_all add: faulty_processor_def heap_facts initial_stats_def)
  have "(case get_performance_stats default_settings demo_environment faulty_processor
             quarter_second_heap of
         Inl e \<Rightarrow> None
       | Inr (stats, h') \<Rightarrow> Some (faces_per_second (cells h' stats))) = Some (Some 4)"
    using get_performance_stats_faces_per_second [OF pre(1) pre(3), of default_settings
        demo_environment]
    unfolding avg using fl_four by auto
  moreover have "(case get_performance_stats default_settings demo_environment faulty_processor
             fresh_heap of
         Inl e \<Rightarrow> None
       | Inr (stats, h') \<Rightarrow> Some (faces_per_second (cells h' stats))) = Some None"
    using get_performance_stats_faces_per_second [OF pre(2) pre(4), of default_settings
        demo_environment]
    unfolding avg by auto
  ultimately show ?thesis using pre by simp
qed

section \<open>Initialisation and fallback\<close>

lemma choose_device_cpu:
  "FORCE_CPU cfg \<or> \<not> GPU_AVAILABLE cfg \<Longrightarrow>
   choose_device cfg self = (- 1, self\<lparr>device_info := ''CPU'', using_gpu := False\<rparr>, [''CPUExecutionProvider''])"
  by (simp add: choose_device_def)

lemma FaceProcessor_cpu:
  assumes "FORCE_CPU cfg \<or> \<not> GPU_AVAILABLE cfg"
  shows "FaceProcessor cfg env h =
     (case import_insightface env of
        Some e \<Rightarrow> Inl (RuntimeError (''Model initialization failed: '' @ str_exception e))
      | None \<Rightarrow>
         (case FaceAnalysis_prepare env [''CPUExecutionProvider''] (- 1) (640, 640) of
            Inl e \<Rightarrow> Inl (RuntimeError (''Model initialization failed: '' @ str_exception e))
          | Inr a \<Rightarrow> Inr (\<lparr>app = Some a, model_loaded = True, using_gpu = False,
                           device_info = ''CPU'', processing_stats = next_addr h\<rparr>,
                          snd (alloc initial_stats h))))"
  by (simp add: FaceProcessor_def alloc_def initialize_model_def choose_device_cpu [OF assms]
      det_size_for_def initialize_failed_def Let_def split: option.splits sum.splits)

lemma FaceProcessor_gpu:
  assumes "\<not> FORCE_CPU cfg" "GPU_AVAILABLE cfg"
  shows "FaceProcessor cfg env h =
     (case import_insightface env of
        Some e \<Rightarrow> Inl (RuntimeError (''Model initialization failed: '' @ str_exception e))
      | None \<Rightarrow>
         (case FaceAnalysis_prepare env (ONNX_PROVIDERS cfg) (GPU_DEVICE_ID cfg) (1024, 1024) of
            Inr a \<Rightarrow>
              (let self2 = \<lparr>app = Some a, model_loaded = True, using_gpu = True,
                            device_info = gpu_device_info cfg,
                            processing_stats = next_addr h\<rparr>
               in Inr (self2, log_gpu_memory cfg env self2 (snd (alloc initial_stats h))))
          | Inl e \<Rightarrow>
             (case FaceAnalysis_prepare env [''CPUExecutionProvider''] (- 1) (640, 640) of
                Inl e' \<Rightarrow> Inl (RuntimeError (''Both GPU and CPU initialization failed: ''
                                              @ str_exception e'))
              | Inr a \<Rightarrow> Inr (\<lparr>app = Some a, model_loaded = True, using_gpu = False,
                           device_info = ''CPU (fallback)'', processing_stats = next_addr h\<rparr>,
                          snd (alloc initial_stats h)))))"
  using assms
  by (simp add: FaceProcessor_def alloc_def initialize_model_def choose_device_def
      det_size_for_def initialize_failed_def fallback_to_cpu_def Let_def
      split: option.splits sum.splits)

lemma gpu_device_info_not_fallback: "gpu_device_info cfg \<noteq> ''CPU (fallback)''"
    by (simp add: gpu_device_info_def)

lemma FaceProcessor_raises_only_if_both_fail:
  assumes "FaceProcessor cfg env h = Inl e"
  shows "fails_to_load env (preferred_backend cfg) \<and> fails_to_load env cpu_backend"
proof (cases "FORCE_CPU cfg \<or> \<not> GPU_AVAILABLE cfg")
  case True
  from assms show ?thesis
    unfolding FaceProcessor_cpu [OF True]
    using True
    by (simp add: fails_to_load_def preferred_backend_def cpu_backend_def
        split: option.splits sum.splits)
next
  case False
  then have g: "\<not> FORCE_CPU cfg" "GPU_AVAILABLE cfg" by simp_all
  from assms show ?thesis
    unfolding FaceProcessor_gpu [OF g]
    using g
    by (simp add: fails_to_load_def preferred_backend_def cpu_backend_def Let_def
        split: option.splits sum.splits)
qed

lemma FaceProcessor_retries_on_cpu:
  assumes "\<not> FORCE_CPU cfg" "GPU_AVAILABLE cfg" "import_insightface env = None"
    "isl (FaceAnalysis_prepare env (ONNX_PROVIDERS cfg) (GPU_DEVICE_ID cfg) (1024, 1024))"
  shows "FaceProcessor cfg env h =
            (case FaceAnalysis_prepare env [''CPUExecutionProvider''] (- 1) (640, 640) of
               Inl e' \<Rightarrow> Inl (RuntimeError (''Both GPU and CPU initialization failed: ''
                                             @ str_exception e'))
             | Inr a \<Rightarrow> Inr (\<lparr>app = Some a, model_loaded = True, using_gpu = False,
                               device_info = ''CPU (fallback)'', processing_stats = next_addr h\<rparr>,
                             snd (alloc initial_stats h)))"
  unfolding FaceProcessor_gpu [OF assms(1,2)] using assms(3,4)
  by (cases "FaceAnalysis_prepare env (ONNX_PROVIDERS cfg) (GPU_DEVICE_ID cfg) (1024, 1024)") simp_all

lemma FaceProcessor_fallback_label_only:
  assumes cpu': "FORCE_CPU cfg' \<or> \<not> GPU_AVAILABLE cfg'"
    and r: "FaceProcessor cfg env h = Inr (p, h1)" and l: "device_info p = ''CPU (fallback)''"
    and r': "FaceProcessor cfg' env h = Inr (p', h1')"
  shows "p = p'\<lparr>device_info := ''CPU (fallback)''\<rparr> \<and> h1 = h1'"
proof -
  have g: "\<not> FORCE_CPU cfg" "GPU_AVAILABLE cfg"
  proof -
    have "\<not> (FORCE_CPU cfg \<or> \<not> GPU_AVAILABLE cfg)"
    proof
      assume c: "FORCE_CPU cfg \<or> \<not> GPU_AVAILABLE cfg"
      from r l show False unfolding FaceProcessor_cpu [OF c]
        by (auto split: option.splits sum.splits)
    qed
    then show "\<not> FORCE_CPU cfg" "GPU_AVAILABLE cfg" by simp_all
  qed
  from r' obtain a where ni: "import_insightface env = None"
    and la: "FaceAnalysis_prepare env [''CPUExecutionProvider''] (- 1) (640, 640) = Inr a"
    and p': "p' = \<lparr>app = Some a, model_loaded = True, using_gpu = False,
                           device_info = ''CPU'', processing_stats = next_addr h\<rparr>"
    and h1': "h1' = snd (alloc initial_stats h)"
    unfolding FaceProcessor_cpu [OF cpu'] by (auto split: option.splits sum.splits)
  show ?thesis
  proof (cases "FaceAnalysis_prepare env (ONNX_PROVIDERS cfg) (GPU_DEVICE_ID cfg) (1024, 1024)")
    case (Inl e)
    with r ni la show ?thesis
      unfolding FaceProcessor_gpu [OF g] p' h1' by auto
  next
    case (Inr b)
    with r ni l gpu_device_info_not_fallback [of cfg] show ?thesis
      unfolding FaceProcessor_gpu [OF g] by (auto simp: Let_def)
  qed
qed

text \<open>
  C4. Creating a processor raises only if the preferred backend and the CPU backend both
  fail to load. If the preferred backend is the accelerator, with detection size
  1024 x 1024, and its load fails, the outcome is that of one load of the CPU backend with
  detection size 640 x 640: a loaded session labelled \<open>CPU (fallback)\<close>, or the
  \<open>RuntimeError\<close> if that load fails too. The fallback session equals the session that a
  CPU configuration creates in the same environment, except for the label.
\<close>

theorem initialization_fails_only_if_cpu_fails:
  "(\<forall>e. FaceProcessor cfg env h = Inl e \<longrightarrow>
        fails_to_load env (preferred_backend cfg) \<and> fails_to_load env cpu_backend)
   \<and> (\<not> FORCE_CPU cfg \<and> GPU_AVAILABLE cfg \<and> import_insightface env = None
        \<and> isl (FaceAnalysis_prepare env (ONNX_PROVIDERS cfg) (GPU_DEVICE_ID cfg) (1024, 1024))
      \<longrightarrow> FaceProcessor cfg env h =
            (case FaceAnalysis_prepare env [''CPUExecutionProvider''] (- 1) (640, 640) of
               Inl e' \<Rightarrow> Inl (RuntimeError (''Both GPU and CPU initialization failed: ''
                                             @ str_exception e'))
             | Inr a \<Rightarrow> Inr (\<lparr>app = Some a, model_loaded = True, using_gpu = False,
                               device_info = ''CPU (fallback)'', processing_stats = next_addr h\<rparr>,
                             snd (alloc initial_stats h))))
   \<and> (\<forall>cfg' p h1 p' h1'.
        (FORCE_CPU cfg' \<or> \<not> GPU_AVAILABLE cfg')
        \<and> FaceProcessor cfg env h = Inr (p, h1) \<and> device_info p = ''CPU (fallback)''
        \<and> FaceProcessor cfg' env h = Inr (p', h1')
        \<longrightarrow> p = p'\<lparr>device_info := ''CPU (fallback)''\<rparr> \<and> h1 = h1')"
  using FaceProcessor_raises_only_if_both_fail [of cfg env h] FaceProcessor_retries_on_cpu [of cfg env h]
    FaceProcessor_fallback_label_only [of _ cfg env h]
  by blast

lemma gpu_settings_facts:
  "\<not> FORCE_CPU gpu_settings" "GPU_AVAILABLE gpu_settings" "GPU_DEVICE_ID gpu_settings = 0"
  "ONNX_PROVIDERS gpu_settings = [''CUDAExecutionProvider'', ''CPUExecutionProvider'']"
  "\<not> GPU_AVAILABLE default_settings"
  by (simp_all add: gpu_settings_def default_settings_def FORCE_CPU_def GPU_AVAILABLE_def
      has_cuda_def has_gpu_onnx_def GPU_DEVICE_ID_def ONNX_PROVIDERS_def get_onnx_providers_def
      ONNX_GPU_AVAILABLE_def)

theorem initialization_fails_only_if_cpu_fails_witness:
  "\<not> FORCE_CPU gpu_settings \<and> GPU_AVAILABLE gpu_settings
   \<and> import_insightface cpu_only_environment = None
   \<and> isl (FaceAnalysis_prepare cpu_only_environment (ONNX_PROVIDERS gpu_settings)
            (GPU_DEVICE_ID gpu_settings) (1024, 1024))
   \<and> FaceProcessor gpu_settings cpu_only_environment empty_heap
       = Inr (\<lparr>app = Some (\<lambda>img. Inr []), model_loaded = True, using_gpu = False,
               device_info = ''CPU (fallback)'', processing_stats = 0\<rparr>, fresh_heap)
   \<and> (FORCE_CPU default_settings \<or> \<not> GPU_AVAILABLE default_settings)
   \<and> FaceProcessor default_settings cpu_only_environment empty_heap
       = Inr (\<lparr>app = Some (\<lambda>img. Inr []), model_loaded = True, using_gpu = False,
               device_info = ''CPU'', processing_stats = 0\<rparr>, fresh_heap)
   \<and> FaceProcessor gpu_settings broken_environment empty_heap
       = Inl (RuntimeError ''Both GPU and CPU initialization failed: model weights missing'')
   \<and> fails_to_load broken_environment (preferred_backend gpu_settings)
   \<and> fails_to_load broken_environment cpu_backend"
proof -
  note thm1 = initialization_fails_only_if_cpu_fails [of gpu_settings cpu_only_environment empty_heap]
  note thm2 = initialization_fails_only_if_cpu_fails [of gpu_settings broken_environment empty_heap]
  have env1: "import_insightface cpu_only_environment = None"
    "isl (FaceAnalysis_prepare cpu_only_environment (ONNX_PROVIDERS gpu_settings)
            (GPU_DEVICE_ID gpu_settings) (1024, 1024))"
    "FaceAnalysis_prepare cpu_only_environment [''CPUExecutionProvider''] (- 1) (640, 640)
       = Inr (\<lambda>img. Inr [])"
    by (simp_all add: cpu_only_environment_def demo_environment_def gpu_settings_facts)
  have env2: "import_insightface broken_environment = None"
    "isl (FaceAnalysis_prepare broken_environment (ONNX_PROVIDERS gpu_settings)
            (GPU_DEVICE_ID gpu_settings) (1024, 1024))"
    "FaceAnalysis_prepare broken_environment [''CPUExecutionProvider''] (- 1) (640, 640)
       = Inl (OtherException ''model weights missing'')"
    by (simp_all add: broken_environment_def demo_environment_def)
  have a: "FaceProcessor gpu_settings cpu_only_environment empty_heap
       = Inr (\<lparr>app = Some (\<lambda>img. Inr []), model_loaded = True, using_gpu = False,
               device_info = ''CPU (fallback)'', processing_stats = 0\<rparr>, fresh_heap)"
    using thm1 [THEN conjunct2, THEN conjunct1] gpu_settings_facts(1,2) env1
    by (simp add: fresh_heap_def empty_heap_def)
  have b: "FaceProcessor gpu_settings broken_environment empty_heap
       = Inl (RuntimeError ''Both GPU and CPU initialization failed: model weights missing'')"
    using thm2 [THEN conjunct2, THEN conjunct1] gpu_settings_facts(1,2) env2
    by simp
  have c: "fails_to_load broken_environment (preferred_backend gpu_settings)
      \<and> fails_to_load broken_environment cpu_backend"
    using thm2 [THEN conjunct1] b by blast
  have d: "FaceProcessor default_settings cpu_only_environment empty_heap
       = Inr (\<lparr>app = Some (\<lambda>img. Inr []), model_loaded = True, using_gpu = False,
               device_info = ''CPU'', processing_stats = 0\<rparr>, fresh_heap)"
    using env1 gpu_settings_facts(5)
    by (simp add: FaceProcessor_cpu fresh_heap_def empty_heap_def)
  from a b c d env1 gpu_settings_facts show ?thesis by simp
qed

section \<open>Rounding to double precision\<close>

lemma pow2_powi: "pow2 k = 2 powi k"
  by (simp add: pow2_def power_int_def inverse_eq_divide power_one_over)

lemma pow2_pos: "0 < pow2 k"
  by (simp add: pow2_powi)

lemma pow2_add: "pow2 (a + b) = pow2 a * pow2 b"
  by (simp add: pow2_powi power_int_add)

lemma pow2_diff: "pow2 (a - b) = pow2 a / pow2 b"
  by (simp add: pow2_powi power_int_diff)

lemma pow2_mono: "a \<le> b \<Longrightarrow> pow2 a \<le> pow2 b"
  by (simp add: pow2_powi power_int_increasing)

lemma pow2_strict_mono: "a < b \<Longrightarrow> pow2 a < pow2 b"
  by (simp add: pow2_powi power_int_strict_increasing)

lemma pow2_less_iff: "pow2 a < pow2 b \<longleftrightarrow> a < b"
  using pow2_mono [of b a] pow2_strict_mono [of a b] by (auto simp: not_less [symmetric])

lemma pow2_le_iff: "pow2 a \<le> pow2 b \<longleftrightarrow> a \<le> b"
  using pow2_mono [of a b] pow2_strict_mono [of b a] by (auto simp: not_le [symmetric])

lemma pow2_nat: "0 \<le> k \<Longrightarrow> pow2 k = of_int (2 ^ nat k)"
  by (simp add: pow2_def)

lemma bitlen_pow2_bounds:
  assumes "0 < a"
  shows "pow2 (bitlen a - 1) \<le> of_int a" "of_int a < pow2 (bitlen a)"
proof -
  from assms have b: "1 \<le> bitlen a" by (simp add: bitlen_alt_def) 
  from bitlen_bounds [OF assms] have l: "2 ^ nat (bitlen a - 1) \<le> a" and u: "a < 2 ^ nat (bitlen a)"
    by simp_all
  from l have "(of_int (2 ^ nat (bitlen a - 1)) :: rat) \<le> of_int a" by (simp only: of_int_le_iff)
  then show "pow2 (bitlen a - 1) \<le> of_int a" using b by (simp add: pow2_nat)
  from u have "(of_int a :: rat) < of_int (2 ^ nat (bitlen a))" by (simp only: of_int_less_iff)
  then show "of_int a < pow2 (bitlen a)" using b by (simp add: pow2_nat)
qed

lemma binade_bounds:
  assumes "0 < x"
  shows "pow2 (binade x) \<le> x" "x < pow2 (binade x + 1)"
proof -
  obtain a b where q: "quotient_of x = (a, b)" by (cases "quotient_of x")
  then have b: "0 < b" and x: "x = of_int a / of_int b"
    using quotient_of_denom_pos quotient_of_div by blast+
  with assms have a: "0 < a" by (simp add: zero_less_divide_iff)
  let ?d = "bitlen a - bitlen b"
  have lo: "pow2 (?d - 1) \<le> x"
  proof -
    have "pow2 (?d - 1) = pow2 (bitlen a - 1) / pow2 (bitlen b)"
      by (simp add: pow2_diff [symmetric] algebra_simps)
    also have "\<dots> \<le> of_int a / pow2 (bitlen b)"
      using bitlen_pow2_bounds(1) [OF a] pow2_pos [of "bitlen b"] by (simp add: divide_right_mono)
    also have "\<dots> \<le> of_int a / of_int b"
      using bitlen_pow2_bounds(2) [OF b] a b by (simp add: frac_le)
    finally show ?thesis by (simp add: x)
  qed
  have hi: "x < pow2 (?d + 1)"
  proof -
    have "of_int a / of_int b < pow2 (bitlen a) / of_int b"
      using bitlen_pow2_bounds(2) [OF a] b by (simp add: divide_strict_right_mono)
    also have "\<dots> \<le> pow2 (bitlen a) / pow2 (bitlen b - 1)"
      using bitlen_pow2_bounds(1) [OF b] pow2_pos [of "bitlen a"] pow2_pos [of "bitlen b - 1"]
      by (simp add: frac_le)
    also have "\<dots> = pow2 (?d + 1)"
      by (simp add: pow2_diff [symmetric] algebra_simps)
    finally show ?thesis by (simp add: x)
  qed
  show "pow2 (binade x) \<le> x" using lo by (simp add: binade_def q Let_def)
  show "x < pow2 (binade x + 1)" using hi by (auto simp add: binade_def q Let_def)
qed

lemma round_half_even_err: "\<bar>of_int (round_half_even y) - y\<bar> \<le> 1 / 2"
proof -
  have "of_int \<lfloor>y\<rfloor> \<le> y" "y < of_int \<lfloor>y\<rfloor> + 1" by linarith+
  then show ?thesis by (auto simp: round_half_even_def Let_def)
qed

lemma round_half_even_le: "y \<le> of_int k \<Longrightarrow> round_half_even y \<le> k"
proof -
  assume a: "y \<le> of_int k"
  show ?thesis
  proof (cases "y = of_int k")
    case True then show ?thesis by (simp add: round_half_even_def)
  next
    case False
    with a have "y < of_int k" by simp
    then have "\<lfloor>y\<rfloor> < k" by (simp add: floor_less_iff)
    then show ?thesis by (auto simp: round_half_even_def Let_def)
  qed
qed

lemma round_half_even_ge: "of_int k \<le> y \<Longrightarrow> k \<le> round_half_even y"
proof -
  assume "of_int k \<le> y"
  then have "k \<le> \<lfloor>y\<rfloor>" by (simp add: le_floor_iff)
  then show ?thesis by (auto simp: round_half_even_def Let_def)
qed

lemma fl_pos_eq: "0 < x \<Longrightarrow> fl x = fl_pos x"
  by (simp add: fl_def)

lemma fl_pos_err:
  assumes "0 < x"
  shows "\<bar>fl_pos x - x\<bar> \<le> pow2 (binade x - 52) / 2"
proof -
  let ?u = "pow2 (binade x - 52)"
  have u: "0 < ?u" by (rule pow2_pos)
  have "fl_pos x - x = (of_int (round_half_even (x / ?u)) - x / ?u) * ?u"
    using u by (simp add: fl_pos_def Let_def algebra_simps)
  then have "\<bar>fl_pos x - x\<bar> = \<bar>of_int (round_half_even (x / ?u)) - x / ?u\<bar> * ?u"
    using u by (simp add: abs_mult)
  also have "\<dots> \<le> (1 / 2) * ?u"
    using u round_half_even_err [of "x / ?u"] by (intro mult_right_mono) simp_all
  finally show ?thesis by simp
qed

lemma ulp_le:
  assumes "0 < x"
  shows "pow2 (binade x - 52) \<le> x / 2 ^ 52"
proof -
  have "pow2 (binade x - 52) = pow2 (binade x) / pow2 52" by (rule pow2_diff)
  also have "\<dots> \<le> x / pow2 52"
    using binade_bounds(1) [OF assms] pow2_pos [of 52] by (simp add: divide_right_mono)
  finally show ?thesis by (simp add: pow2_def)
qed

lemma fl_rel_err:
  assumes "0 < x"
  shows "\<bar>fl x - x\<bar> \<le> x / 2 ^ 53"
proof -
  have "\<bar>fl_pos x - x\<bar> \<le> pow2 (binade x - 52) / 2" by (rule fl_pos_err [OF assms])
  also have "\<dots> \<le> (x / 2 ^ 52) / 2" using ulp_le [OF assms] by simp
  finally show ?thesis using assms by (simp add: fl_pos_eq)
qed

lemma fl_positive: "0 < x \<Longrightarrow> 0 < fl x"
proof -
  assume x: "0 < x"
  have "x / 2 ^ 53 < x" using x by (simp add: field_simps)
  with fl_rel_err [OF x] show ?thesis by linarith
qed

lemma fl_pos_le_grid:
  assumes "0 < x" "x \<le> of_int k * pow2 (binade x - 52)"
  shows "fl_pos x \<le> of_int k * pow2 (binade x - 52)"
proof -
  let ?u = "pow2 (binade x - 52)"
  have u: "0 < ?u" by (rule pow2_pos)
  from assms(2) u have "x / ?u \<le> of_int k" by (simp add: field_simps)
  then have "round_half_even (x / ?u) \<le> k" by (rule round_half_even_le)
  then have "(of_int (round_half_even (x / ?u)) :: rat) \<le> of_int k" by simp
  then show ?thesis using u by (simp add: fl_pos_def Let_def)
qed

lemma fl_pos_ge_grid:
  assumes "0 < x" "of_int k * pow2 (binade x - 52) \<le> x"
  shows "of_int k * pow2 (binade x - 52) \<le> fl_pos x"
proof -
  let ?u = "pow2 (binade x - 52)"
  have u: "0 < ?u" by (rule pow2_pos)
  from assms(2) u have "of_int k \<le> x / ?u" by (simp add: field_simps)
  then have "k \<le> round_half_even (x / ?u)" by (rule round_half_even_ge)
  then have "(of_int k :: rat) \<le> of_int (round_half_even (x / ?u))" by simp
  then show ?thesis using u by (simp add: fl_pos_def Let_def)
qed

lemma half_int_on_grid:
  assumes "0 < x" "x < 2 ^ 52"
  shows "\<exists>k. of_int n / 2 = (of_int k :: rat) * pow2 (binade x - 52)"
proof -
  have "pow2 (binade x) < pow2 52"
    using binade_bounds(1) [OF assms(1)] assms(2) by (simp add: pow2_def)
  then have e: "binade x \<le> 51" by (simp add: pow2_less_iff)
  define j where "j = 51 - binade x"
  have j: "0 \<le> j" using e by (simp add: j_def)
  have "(of_int (n * 2 ^ nat j) :: rat) * pow2 (binade x - 52) = of_int n * (pow2 j * pow2 (binade x - 52))"
    using j by (simp add: pow2_nat)
  also have "pow2 j * pow2 (binade x - 52) = pow2 (- 1)"
    by (simp add: pow2_add [symmetric] j_def)
  also have "pow2 (- 1) = 1 / 2" by (simp add: pow2_def)
  finally show ?thesis by (intro exI [of _ "n * 2 ^ nat j"]) simp
qed

lemma fl_le_half_int:
  assumes "0 < x" "x < 2 ^ 52" "x \<le> of_int n / 2"
  shows "fl x \<le> of_int n / 2"
proof -
  from half_int_on_grid [OF assms(1,2), of n] obtain k where
    k: "of_int n / 2 = (of_int k :: rat) * pow2 (binade x - 52)" ..
  from fl_pos_le_grid [OF assms(1), of k] assms(3) show ?thesis
    unfolding k [symmetric] by (simp add: fl_pos_eq [OF assms(1)])
qed

lemma fl_ge_half_int:
  assumes "0 < x" "x < 2 ^ 52" "of_int n / 2 \<le> x"
  shows "of_int n / 2 \<le> fl x"
proof -
  from half_int_on_grid [OF assms(1,2), of n] obtain k where
    k: "of_int n / 2 = (of_int k :: rat) * pow2 (binade x - 52)" ..
  from fl_pos_ge_grid [OF assms(1), of k] assms(3) show ?thesis
    unfolding k [symmetric] by (simp add: fl_pos_eq [OF assms(1)])
qed

lemma fl_le_int:
  assumes "0 < x" "x < 2 ^ 52" "x \<le> of_int n"
  shows "fl x \<le> of_int n"
  using fl_le_half_int [OF assms(1,2), of "2 * n"] assms(3) by simp

lemma fl_ge_int:
  assumes "0 < x" "x < 2 ^ 52" "of_int n \<le> x"
  shows "of_int n \<le> fl x"
  using fl_ge_half_int [OF assms(1,2), of "2 * n"] assms(3) by simp

section \<open>Image normalisation\<close>

lemma scaled_dim_bounds:
  fixes d m md :: nat
  assumes md: "0 < md" "md < m" and d: "d \<le> m" and bound: "3 * m * md < 2 ^ 53"
  defines "new \<equiv> py_int (fl (of_nat d * fl (of_nat md / of_nat m)))"
  shows "int d * int md - int m \<le> int m * new" and "int m * new \<le> int d * int md"
    and "0 \<le> new"
proof -
  define x :: rat where "x = of_nat md / of_nat m"
  define s where "s = fl x"
  have m: "0 < m" using md by simp
  have mpos: "(0 :: rat) < of_nat m" using m by simp
  have x: "0 < x" using md m by (simp add: x_def)
  have s: "0 < s" unfolding s_def by (rule fl_positive [OF x])
  have serr: "\<bar>s - x\<bar> \<le> x / 2 ^ 53" unfolding s_def by (rule fl_rel_err [OF x])
  have new_eq: "new = py_int (fl (of_nat d * s))" by (simp add: new_def s_def x_def)
  have goal: "int d * int md - int m \<le> int m * new \<and> int m * new \<le> int d * int md \<and> 0 \<le> new"
  proof (cases "d = 0")
    case True
    then show ?thesis by (simp add: new_eq fl_def py_int_def)
  next
    case False
    then have dpos: "(0 :: rat) < of_nat d" by simp
    define y where "y = of_nat d * s"
    define ideal where "ideal = of_nat d * x"
    have y: "0 < y" unfolding y_def using dpos s by (rule mult_pos_pos)
    have ideal: "0 < ideal" unfolding ideal_def using dpos x by (rule mult_pos_pos)
    have mid: "of_nat m * ideal = (of_nat (d * md) :: rat)"
      using m by (simp add: ideal_def x_def)
    have ideal_le: "ideal \<le> of_nat md"
    proof -
      have "(of_nat d :: rat) \<le> of_nat m" using d by simp
      then have "of_nat d * (of_nat md :: rat) \<le> of_nat m * of_nat md"
        by (intro mult_right_mono) simp_all
      then show ?thesis using m by (simp add: ideal_def x_def field_simps)
    qed
    have "y - ideal = of_nat d * (s - x)" by (simp add: y_def ideal_def algebra_simps)
    then have "\<bar>y - ideal\<bar> = of_nat d * \<bar>s - x\<bar>" by (simp add: abs_mult)
    also have "\<dots> \<le> of_nat d * (x / 2 ^ 53)"
      using serr by (intro mult_left_mono) simp_all
    finally have yerr: "\<bar>y - ideal\<bar> \<le> ideal / 2 ^ 53" by (simp add: ideal_def)
    have "ideal / 2 ^ 53 \<le> ideal" using ideal by (simp add: field_simps)
    with yerr have y2: "y \<le> 2 * ideal" by linarith
    have ferr: "\<bar>fl y - y\<bar> \<le> y / 2 ^ 53" by (rule fl_rel_err [OF y])
    have "y / 2 ^ 53 \<le> 2 * ideal / 2 ^ 53" using y2 by (simp add: divide_right_mono)
    with ferr yerr have "\<bar>fl y - ideal\<bar> \<le> 3 * ideal / 2 ^ 53" by linarith
    also have "\<dots> \<le> 3 * of_nat md / 2 ^ 53"
      using ideal_le by (simp add: divide_right_mono)
    finally have tot: "\<bar>fl y - ideal\<bar> \<le> 3 * of_nat md / 2 ^ 53" .
    define eps :: rat where "eps = 3 * of_nat md / 2 ^ 53"
    have small: "of_nat m * eps < 1"
    proof -
      have "(of_nat (3 * m * md) :: rat) < of_nat (2 ^ 53)" using bound by (simp only: of_nat_less_iff)
      then show ?thesis by (simp add: eps_def field_simps)
    qed
    have fpos: "0 < fl y" by (rule fl_positive [OF y])
    define n where "n = \<lfloor>fl y\<rfloor>"
    have new: "new = n" using fpos by (simp add: new_eq y_def n_def py_int_def)
    have n1: "of_int n \<le> fl y" and n2: "fl y < of_int n + 1" unfolding n_def by linarith+
    have n0: "0 \<le> n" using fpos by (simp add: n_def)
    have up: "of_nat m * fl y < of_nat (d * md) + (1 :: rat)"
    proof -
      have "fl y \<le> ideal + eps" using tot unfolding eps_def by linarith
      then have "of_nat m * fl y \<le> of_nat m * (ideal + eps)"
        using mpos by (intro mult_left_mono) simp_all
      also have "\<dots> = of_nat (d * md) + of_nat m * eps"
        unfolding distrib_left mid ..
      also have "\<dots> < of_nat (d * md) + 1" using small by simp
      finally show ?thesis .
    qed
    have lo: "of_nat (d * md) - (1 :: rat) < of_nat m * fl y"
    proof -
      have "ideal - eps \<le> fl y" using tot unfolding eps_def by linarith
      then have "of_nat m * (ideal - eps) \<le> of_nat m * fl y"
        using mpos by (intro mult_left_mono) simp_all
      moreover have "of_nat m * (ideal - eps) = of_nat (d * md) - of_nat m * eps"
        unfolding right_diff_distrib mid ..
      ultimately show ?thesis using small by linarith
    qed
    have "of_nat m * of_int n \<le> of_nat m * fl y"
      using n1 mpos by (intro mult_left_mono) simp_all
    with up have "(of_int (int m * n) :: rat) < of_int (int (d * md) + 1)" by simp
    then have "int m * n < int (d * md) + 1" by (simp only: of_int_less_iff)
    then have A: "int m * n \<le> int d * int md" by simp
    have "of_nat m * fl y < of_nat m * (of_int n + 1)"
      using n2 mpos by (intro mult_strict_left_mono) simp_all
    with lo have "(of_int (int (d * md) - 1) :: rat) < of_int (int m * (n + 1))" by simp
    then have "int (d * md) - 1 < int m * (n + 1)" by (simp only: of_int_less_iff)
    then have B: "int d * int md - int m \<le> int m * n" by (simp add: algebra_simps)
    from A B n0 show ?thesis by (simp add: new)
  qed
  from goal show "int d * int md - int m \<le> int m * new" by simp
  from goal show "int m * new \<le> int d * int md" by simp
  from goal show "0 \<le> new" by simp
qed

lemma scaled_edge_facts:
  fixes d m md :: nat
  assumes md: "0 < md" "md < m" and d: "d \<le> m" and bound: "3 * m * md < 2 ^ 53"
  shows "0 \<le> scaled_edge md m d"
    and "scaled_edge md m d \<le> int md"
    and "scaled_edge md m d \<le> int d"
    and "d = m \<Longrightarrow> int md - 1 \<le> scaled_edge md m d"
    and "d * md < m \<Longrightarrow> scaled_edge md m d = 0"
    and "2 * m \<le> d * md \<Longrightarrow> 1 \<le> scaled_edge md m d"
proof -
  define n where "n = scaled_edge md m d"
  note b = scaled_dim_bounds [OF md d bound, folded scaled_edge_def, folded n_def]
  have mpos: "0 < int m" using md by simp
  show n0: "0 \<le> n" by (rule b(3))
  have "int m * n \<le> int m * int md"
  proof -
    have "int d * int md \<le> int m * int md" using d by (intro mult_right_mono) simp_all
    with b(2) show ?thesis by linarith
  qed
  then show "n \<le> int md" using mpos by (simp only: mult_le_cancel_left_pos)
  have "int m * n \<le> int m * int d"
  proof -
    have "int d * int md \<le> int d * int m" using md by (intro mult_left_mono) simp_all
    with b(2) show ?thesis by (simp add: mult.commute)
  qed
  then show "n \<le> int d" using mpos by (simp only: mult_le_cancel_left_pos)
  show "int md - 1 \<le> n" if "d = m"
  proof -
    from b(1) that have "int m * (int md - 1) \<le> int m * n" by (simp add: algebra_simps)
    then show ?thesis using mpos by (simp only: mult_le_cancel_left_pos)
  qed
  show "n = 0" if "d * md < m"
  proof -
    from that have "int d * int md < int m" by (metis of_nat_less_iff of_nat_mult)
    with b(2) have "int m * n < int m * 1" by simp
    then have "n < 1" using mpos by (simp only: mult_less_cancel_left_pos)
    with n0 show ?thesis by simp
  qed
  show "1 \<le> n" if "2 * m \<le> d * md"
  proof -
    from that have "2 * int m \<le> int d * int md" by (metis of_nat_le_iff of_nat_mult of_nat_numeral)
    with b(1) have "int m * 1 \<le> int m * n" by simp
    then show ?thesis using mpos by (simp only: mult_le_cancel_left_pos)
  qed
qed

lemma optimize_out_of_bounds:
  assumes "max_dim_for self < max (height img) (width img)"
  shows "optimize_image_for_processing cfg env self img =
     cv2_resize env img
       (scaled_edge (max_dim_for self) (max (height img) (width img)) (width img),
        scaled_edge (max_dim_for self) (max (height img) (width img)) (height img))"
  using assms
  by (auto simp: optimize_image_for_processing_def Let_def scaled_edge_def ascontiguousarray_def
      split: sum.splits)

lemma max_dim_for_cases: "max_dim_for self = 1024 \<or> max_dim_for self = 1920"
  by (simp add: max_dim_for_def)

lemma rounded_products:
  "py_int (fl (1122 * fl (1024 / 1122))) = 1023"
  "py_int (fl (600 * fl (1024 / 1122))) = 547"
  "py_int (fl (5000 * fl (1024 / 5000))) = 1024"
  "py_int (fl (1 * fl (1024 / 5000))) = 0"
  by code_simp+

lemma scaled_edge_values:
  "scaled_edge 1024 1122 1122 = 1023" "scaled_edge 1024 1122 600 = 547"
  "scaled_edge 1024 5000 5000 = 1024" "scaled_edge 1024 5000 1 = 0"
  unfolding scaled_edge_def of_nat_numeral of_nat_1 by (rule rounded_products)+

lemma rounded_products_hd:
  "py_int (fl (1920 * fl (1024 / 1920))) = 1024"
  "py_int (fl (1080 * fl (1024 / 1920))) = 576"
  by code_simp+

lemma scaled_edge_hd:
  "scaled_edge 1024 1920 1920 = 1024" "scaled_edge 1024 1920 1080 = 576"
  unfolding scaled_edge_def of_nat_numeral by (rule rounded_products_hd)+

lemma scaled_edge_sliver: "scaled_edge 1024 5000 (Suc 0) = 0"
  using scaled_edge_values(4) by simp

lemma optimize_wide_image:
  "optimize_image_for_processing default_settings demo_environment demo_processor wide_image
     = Inr \<lparr>height = 547, width = 1023, pixels = ()\<rparr>"
proof -
  have "max_dim_for demo_processor < max (height wide_image) (width wide_image)"
    by (simp add: max_dim_for_def demo_processor_def wide_image_def)
  from optimize_out_of_bounds [OF this] show ?thesis
    by (simp add: max_dim_for_def demo_processor_def wide_image_def scaled_edge_values
        cv2_resize_def demo_environment_def)
qed

text \<open>
  C7, as the claim states it, fails on a CPU session (\<open>max_dim = 1024\<close>): an image
  1122 wide and 600 high comes back 1023 wide, because \<open>1122 * (1024 / 1122)\<close> rounds to
  a double just below 1024 and \<^verbatim>\<open>int\<close> truncates; and for an image 5000 wide and 1 high
  the new height is 0 and \<^verbatim>\<open>cv2.resize\<close> raises instead of returning an image.
\<close>

theorem optimize_image_misses_max_dim:
  "optimize_image_for_processing default_settings demo_environment demo_processor wide_image
     = Inr \<lparr>height = 547, width = 1023, pixels = ()\<rparr>
   \<and> max_dim_for demo_processor = 1024
   \<and> optimize_image_for_processing default_settings demo_environment demo_processor sliver_image
       = Inl (cv2_error ''!dsize.empty()'')"
proof -
  have "max_dim_for demo_processor < max (height sliver_image) (width sliver_image)"
    by (simp add: max_dim_for_def demo_processor_def sliver_image_def)
  from optimize_out_of_bounds [OF this]
  have "optimize_image_for_processing default_settings demo_environment demo_processor sliver_image
       = Inl (cv2_error ''!dsize.empty()'')"
    by (simp add: max_dim_for_def demo_processor_def sliver_image_def scaled_edge_values
        scaled_edge_sliver cv2_resize_def)
  with optimize_wide_image show ?thesis by (simp add: max_dim_for_def demo_processor_def)
qed

text \<open>
  C7, amended. An image within bounds is returned as it is. For a larger image with edges
  below \<open>2^31\<close>, every image that is returned has each edge \<open>e'\<close> between
  \<open>e * max_dim / longest - 1\<close> and \<open>e * max_dim / longest\<close>, where \<open>e\<close> is the old edge:
  no edge grows, and the longer edge is \<open>max_dim\<close> or \<open>max_dim - 1\<close>. An image is returned
  whenever the shorter edge times \<open>max_dim\<close> is at least twice the longer edge. Normalising
  a returned image again returns it unchanged.
\<close>

theorem optimize_image_scales_within_a_pixel:
  assumes "height img < 2 ^ 31" and "width img < 2 ^ 31"
  shows
  "(max (height img) (width img) \<le> max_dim_for self \<longrightarrow>
      optimize_image_for_processing cfg env self img = Inr img)
   \<and> (max_dim_for self < max (height img) (width img) \<longrightarrow>
        (\<forall>img'. optimize_image_for_processing cfg env self img = Inr img' \<longrightarrow>
            height img' \<le> height img \<and> width img' \<le> width img
          \<and> max_dim_for self - 1 \<le> max (height img') (width img')
          \<and> max (height img') (width img') \<le> max_dim_for self
          \<and> int (width img) * int (max_dim_for self) - int (max (height img) (width img))
               \<le> int (max (height img) (width img)) * int (width img')
          \<and> int (max (height img) (width img)) * int (width img')
               \<le> int (width img) * int (max_dim_for self)
          \<and> int (height img) * int (max_dim_for self) - int (max (height img) (width img))
               \<le> int (max (height img) (width img)) * int (height img')
          \<and> int (max (height img) (width img)) * int (height img')
               \<le> int (height img) * int (max_dim_for self))
        \<and> (2 * max (height img) (width img) \<le> min (height img) (width img) * max_dim_for self \<longrightarrow>
              (\<exists>img'. optimize_image_for_processing cfg env self img = Inr img')))
   \<and> (\<forall>img'. optimize_image_for_processing cfg env self img = Inr img' \<longrightarrow>
         optimize_image_for_processing cfg env self img' = Inr img')"
proof -
  define md where "md = max_dim_for self"
  define m where "m = max (height img) (width img)"
  define nw where "nw = scaled_edge md m (width img)"
  define nh where "nh = scaled_edge md m (height img)"
  have mdc: "md = 1024 \<or> md = 1920" unfolding md_def by (rule max_dim_for_cases)
  then have md0: "0 < md" and md2: "2 \<le> md" and mdle: "md \<le> 1920" by auto
  have mlt: "m < 2 ^ 31" using assms by (simp add: m_def)
  have bound: "3 * m * md < 2 ^ 53"
  proof -
    have "3 * m * md \<le> 3 * m * 1920" using mdle by simp
    also have "\<dots> < 3 * 2 ^ 31 * 1920" using mlt by simp
    also have "\<dots> \<le> (2 :: nat) ^ 53" by simp
    finally show ?thesis .
  qed
  have inb: "optimize_image_for_processing cfg env self img = Inr img" if "m \<le> md"
    using that unfolding m_def md_def by (rule optimize_within_bounds)
  have out: "optimize_image_for_processing cfg env self img = cv2_resize env img (nw, nh)"
    if "md < m"
    using optimize_out_of_bounds [of self img cfg env] that
    by (simp add: m_def md_def nw_def nh_def)
  have wle: "width img \<le> m" and hle: "height img \<le> m" by (simp_all add: m_def)
  have res: "height img' \<le> height img \<and> width img' \<le> width img
          \<and> md - 1 \<le> max (height img') (width img')
          \<and> max (height img') (width img') \<le> md
          \<and> int (width img) * int md - int m \<le> int m * int (width img')
          \<and> int m * int (width img') \<le> int (width img) * int md
          \<and> int (height img) * int md - int m \<le> int m * int (height img')
          \<and> int m * int (height img') \<le> int (height img) * int md"
    if lt: "md < m" and r: "optimize_image_for_processing cfg env self img = Inr img'" for img'
  proof -
    note fw = scaled_edge_facts [OF md0 lt wle bound, folded nw_def]
    note fh = scaled_edge_facts [OF md0 lt hle bound, folded nh_def]
    note bw = scaled_dim_bounds [OF md0 lt wle bound, folded scaled_edge_def, folded nw_def]
    note bh = scaled_dim_bounds [OF md0 lt hle bound, folded scaled_edge_def, folded nh_def]
    from r have pos: "0 < nw" "0 < nh" and w': "width img' = nat nw" and h': "height img' = nat nh"
      unfolding out [OF lt] by (auto simp: cv2_resize_def split: if_splits)
    have iw: "int (width img') = nw" and ih: "int (height img') = nh"
      using pos w' h' by simp_all
    have "m = width img \<or> m = height img" by (auto simp: m_def max_def)
    then have "int md - 1 \<le> nw \<or> int md - 1 \<le> nh"
      using fw(4) fh(4) by auto
    then have big: "md - 1 \<le> max (height img') (width img')"
      using iw ih by (auto simp: le_max_iff_disj)
    have "width img' \<le> width img" "height img' \<le> height img"
      "width img' \<le> md" "height img' \<le> md"
      using fw(2,3) fh(2,3) iw ih by linarith+
    with big bw(1,2) bh(1,2) show ?thesis unfolding iw ih by simp
  qed
  have ok: "\<exists>img'. optimize_image_for_processing cfg env self img = Inr img'"
    if lt: "md < m" and large: "2 * m \<le> min (height img) (width img) * md"
  proof -
    note fw = scaled_edge_facts [OF md0 lt wle bound, folded nw_def]
    note fh = scaled_edge_facts [OF md0 lt hle bound, folded nh_def]
    have l1: "min (height img) (width img) * md \<le> width img * md"
      and l2: "min (height img) (width img) * md \<le> height img * md"
      by (simp_all add: mult_le_mono1)
    from large l1 l2 have "2 * m \<le> width img * md" "2 * m \<le> height img * md" by linarith+
    then have "1 \<le> nw" "1 \<le> nh" using fw(6) fh(6) by auto
    moreover have "0 < width img" "0 < height img"
    proof -
      have "0 < min (height img) (width img) * md" using large lt by linarith
      then show "0 < width img" "0 < height img" by (auto simp: min_def split: if_splits)
    qed
    ultimately show ?thesis unfolding out [OF lt] by (auto simp: cv2_resize_def)
  qed
  have idem: "optimize_image_for_processing cfg env self img' = Inr img'"
    if r: "optimize_image_for_processing cfg env self img = Inr img'" for img'
  proof (cases "m \<le> md")
    case True
    with r inb have "img' = img" by simp
    with inb [OF True] show ?thesis by simp
  next
    case False
    then have lt: "md < m" by simp
    from res [OF lt r] have "max (height img') (width img') \<le> max_dim_for self"
      by (simp add: md_def)
    then show ?thesis by (rule optimize_within_bounds)
  qed
  from inb res ok idem show ?thesis
    unfolding md_def [symmetric] m_def [symmetric] by blast
qed

theorem optimize_image_scales_within_a_pixel_witness:
  "height wide_image < 2 ^ 31 \<and> width wide_image < 2 ^ 31
   \<and> max_dim_for demo_processor < max (height wide_image) (width wide_image)
   \<and> optimize_image_for_processing default_settings demo_environment demo_processor wide_image
       = Inr \<lparr>height = 547, width = 1023, pixels = ()\<rparr>
   \<and> optimize_image_for_processing default_settings demo_environment demo_processor
         \<lparr>height = 547, width = 1023, pixels = ()\<rparr>
       = Inr \<lparr>height = 547, width = 1023, pixels = ()\<rparr>
   \<and> int (max (height wide_image) (width wide_image)) * 1023
        \<le> int (width wide_image) * int (max_dim_for demo_processor)
   \<and> int (width wide_image) * int (max_dim_for demo_processor)
        - int (max (height wide_image) (width wide_image))
        \<le> int (max (height wide_image) (width wide_image)) * 1023
   \<and> max (height demo_image) (width demo_image) \<le> max_dim_for demo_processor
   \<and> optimize_image_for_processing default_settings demo_environment demo_processor demo_image
       = Inr demo_image
   \<and> height hd_image < 2 ^ 31 \<and> width hd_image < 2 ^ 31
   \<and> max (height hd_image) (width hd_image) \<le> max_dim_for gpu_demo_processor
   \<and> optimize_image_for_processing default_settings demo_environment gpu_demo_processor hd_image
       = Inr hd_image
   \<and> optimize_image_for_processing default_settings demo_environment demo_processor hd_image
       = Inr \<lparr>height = 576, width = 1024, pixels = ()\<rparr>"
proof -
  have hd: "height hd_image < 2 ^ 31" "width hd_image < 2 ^ 31"
    "max (height hd_image) (width hd_image) \<le> max_dim_for gpu_demo_processor"
    by (simp_all add: hd_image_def max_dim_for_def gpu_demo_processor_def)
  from optimize_image_scales_within_a_pixel [OF hd(1,2), of gpu_demo_processor default_settings
      demo_environment] hd(3)
  have gpu: "optimize_image_for_processing default_settings demo_environment gpu_demo_processor
      hd_image = Inr hd_image"
    by blast
  have "max_dim_for demo_processor < max (height hd_image) (width hd_image)"
    by (simp add: max_dim_for_def demo_processor_def hd_image_def)
  from optimize_out_of_bounds [OF this]
  have cpu: "optimize_image_for_processing default_settings demo_environment demo_processor hd_image
       = Inr \<lparr>height = 576, width = 1024, pixels = ()\<rparr>"
    by (simp add: max_dim_for_def demo_processor_def hd_image_def scaled_edge_hd
        cv2_resize_def demo_environment_def)
  have pre: "height wide_image < 2 ^ 31" "width wide_image < 2 ^ 31"
    "height demo_image < 2 ^ 31" "width demo_image < 2 ^ 31"
    by (simp_all add: wide_image_def demo_image_def)
  have out: "max_dim_for demo_processor < max (height wide_image) (width wide_image)"
    and inb: "max (height demo_image) (width demo_image) \<le> max_dim_for demo_processor"
    by (simp_all add: max_dim_for_def demo_processor_def wide_image_def demo_image_def)
  note wide = optimize_image_scales_within_a_pixel [OF pre(1,2), of demo_processor default_settings
      demo_environment]
  note small = optimize_image_scales_within_a_pixel [OF pre(3,4), of demo_processor default_settings
      demo_environment]
  from wide optimize_wide_image
  have idem: "optimize_image_for_processing default_settings demo_environment demo_processor
         \<lparr>height = 547, width = 1023, pixels = ()\<rparr>
       = Inr \<lparr>height = 547, width = 1023, pixels = ()\<rparr>"
    by blast
  from wide out optimize_wide_image
  have asp: "int (max (height wide_image) (width wide_image)) * 1023
        \<le> int (width wide_image) * int (max_dim_for demo_processor)
     \<and> int (width wide_image) * int (max_dim_for demo_processor)
        - int (max (height wide_image) (width wide_image))
        \<le> int (max (height wide_image) (width wide_image)) * 1023"
    by force
  from small inb
  have "optimize_image_for_processing default_settings demo_environment demo_processor demo_image
       = Inr demo_image"
    by blast
  with pre out inb optimize_wide_image idem asp hd gpu cpu show ?thesis by blast
qed

section \<open>Rounding to float64\<close>

lemma binade_lower:
  assumes "pow2 j \<le> x"
  shows "j \<le> binade x"
proof -
  have x: "0 < x" using assms pow2_pos [of j] by linarith
  from binade_bounds(2) [OF x] assms have "pow2 j < pow2 (binade x + 1)" by linarith
  then show ?thesis by (simp add: pow2_less_iff)
qed


lemma round64_normal:
  assumes "pow2 (- 1022) \<le> \<bar>x\<bar>" and "\<bar>fl x\<bar> < 2 ^ 1024"
  shows "round64 x = Finite (fl x)"
proof -
  have nz: "x \<noteq> 0" using assms(1) pow2_pos [of "- 1022"] by auto
  have "- 1022 \<le> binade \<bar>x\<bar>" using assms(1) by (rule binade_lower)
  then have k: "max (binade \<bar>x\<bar> - 52) (- 1074) = binade \<bar>x\<bar> - 52" by simp
  have r: "of_int (round_half_even (\<bar>x\<bar> / pow2 (binade \<bar>x\<bar> - 52))) * pow2 (binade \<bar>x\<bar> - 52)
      = fl_pos \<bar>x\<bar>"
    by (simp add: fl_pos_def Let_def)
  have f: "fl x = (if 0 < x then fl_pos \<bar>x\<bar> else - fl_pos \<bar>x\<bar>)"
    using nz by (auto simp: fl_def)
  have "\<bar>fl_pos \<bar>x\<bar>\<bar> < 2 ^ 1024" using assms(2) f by (auto split: if_splits)
  then have "\<not> 2 ^ 1024 \<le> fl_pos \<bar>x\<bar>" by linarith
  then show ?thesis
    using nz f unfolding round64_def Let_def k r by simp
qed

lemma fl_exact_int:
  assumes "0 < n" "n < 2 ^ 52"
  shows "fl (of_int n) = of_int n"
proof -
  have p: "(0 :: rat) < of_int n" using assms(1) by simp
  have l: "(of_int n :: rat) < 2 ^ 52"
  proof -
    have "(of_int n :: rat) < of_int (2 ^ 52)" using assms(2) by (simp only: of_int_less_iff)
    then show ?thesis by simp
  qed
  from fl_le_int [OF p l, of n] fl_ge_int [OF p l, of n] show ?thesis by simp
qed

lemma round64_int:
  assumes "0 < n" "n < 2 ^ 52"
  shows "round64 (of_int n) = Finite (of_int n)"
proof -
  have one: "(1 :: rat) \<le> of_int n" using assms(1) by simp
  have "pow2 (- 1022) \<le> (1 :: rat)" by (simp add: pow2_def)
  with one have a: "pow2 (- 1022) \<le> \<bar>of_int n :: rat\<bar>" by linarith
  have "(of_int n :: rat) < of_int (2 ^ 52)" using assms(2) by (simp only: of_int_less_iff)
  then have "(of_int n :: rat) < 2 ^ 52" by simp
  moreover have "(2 :: rat) ^ 52 \<le> 2 ^ 1024" by (rule power_increasing) simp_all
  ultimately have b: "\<bar>fl (of_int n) :: rat\<bar> < 2 ^ 1024"
    using one by (simp add: fl_exact_int [OF assms])
  from round64_normal [OF a b] show ?thesis by (simp add: fl_exact_int [OF assms])
qed

lemma round64_zero: "round64 0 = Finite 0"
  by (simp add: round64_def)


text \<open>
  The square root is correctly rounded: \<open>sqrt_rounded a\<close> is a multiple of the spacing
  \<open>u\<close> of the binade of the root, and the root of \<open>a\<close> is within \<open>u / 2\<close> of it.
\<close>

lemma isqrt_bits_correct:
  "0 \<le> r \<Longrightarrow> r * r \<le> n \<Longrightarrow> n < (r + 2 ^ b) * (r + 2 ^ b) \<Longrightarrow>
   isqrt_bits b n r * isqrt_bits b n r \<le> n
   \<and> n < (isqrt_bits b n r + 1) * (isqrt_bits b n r + 1)"
proof (induction b arbitrary: r)
  case 0
  then show ?case by simp
next
  case (Suc b)
  show ?case
  proof (cases "(r + 2 ^ b) * (r + 2 ^ b) \<le> n")
    case True
    have "n < (r + 2 ^ b + 2 ^ b) * (r + 2 ^ b + 2 ^ b)" using Suc.prems(3) by (simp add: algebra_simps)
    with Suc.IH [of "r + 2 ^ b"] True Suc.prems(1) show ?thesis by simp
  next
    case False
    with Suc.IH [of r] Suc.prems show ?thesis by simp
  qed
qed

lemma isqrt_bits_nonneg: "0 \<le> r \<Longrightarrow> 0 \<le> isqrt_bits b n r"
  by (induction b arbitrary: r) simp_all

lemma isqrt_correct:
  assumes "0 \<le> n"
  shows "isqrt n * isqrt n \<le> n" and "n < (isqrt n + 1) * (isqrt n + 1)"
proof -
  have lt: "n < 2 ^ nat (bitlen n)"
  proof (cases "n = 0")
    case True then show ?thesis by simp
  next
    case False
    with assms have "0 < n" by simp
    from bitlen_bounds [OF this] show ?thesis by simp
  qed
  define p :: int where "p = 2 ^ nat (bitlen n)"
  have "1 \<le> p" by (simp add: p_def)
  then have "p * 1 \<le> p * p" by (intro mult_left_mono) simp_all
  with lt have "n < p * p" by (simp add: p_def [symmetric])
  then have "n < (0 + 2 ^ nat (bitlen n)) * (0 + 2 ^ nat (bitlen n))" by (simp add: p_def)
  from isqrt_bits_correct [OF _ _ this] assms
  show "isqrt n * isqrt n \<le> n" and "n < (isqrt n + 1) * (isqrt n + 1)"
    by (simp_all add: isqrt_def)
qed

lemma sqrt_rounded_nearest:
  assumes a_pos: "0 < a"
  defines "u \<equiv> pow2 (binade a div 2 - 52)"
  shows "(sqrt_rounded a - u / 2) * (sqrt_rounded a - u / 2) \<le> a"
    and "a \<le> (sqrt_rounded a + u / 2) * (sqrt_rounded a + u / 2)"
    and "u / 2 \<le> sqrt_rounded a"
proof -
  define k where "k = binade a div 2 - 52"
  define q where "q = a / pow2 (2 * k)"
  define m where "m = isqrt \<lfloor>q\<rfloor>"
  define mid where "mid = (of_int m + 1 / 2) * (of_int m + 1 / 2 :: rat)"
  define n where "n = (if q < mid then m else if mid < q then m + 1 else if even m then m else m + 1)"
  have u: "u = pow2 k" "0 < u" by (simp_all add: u_def k_def pow2_pos)
  have uu: "pow2 (2 * k) = u * u" using pow2_add [of k k] by (simp add: u)
  have s: "sqrt_rounded a = of_int n * u"
    by (simp only: sqrt_rounded_def Let_def n_def mid_def m_def q_def k_def u_def)
  have a: "a = q * (u * u)" using u by (simp add: q_def uu)
  have q1: "1 \<le> q"
  proof -
    have "2 * k + 104 \<le> binade a" by (simp add: k_def)
    then have "2 * k \<le> binade a" by simp
    then have "pow2 (2 * k) \<le> pow2 (binade a)" by (rule pow2_mono)
    with binade_bounds(1) [OF a_pos] have "pow2 (2 * k) \<le> a" by linarith
    then show ?thesis using pow2_pos [of "2 * k"] by (simp add: q_def field_simps)
  qed
  then have fq: "0 \<le> \<lfloor>q\<rfloor>" by simp
  have m1: "of_int (m * m) \<le> q"
  proof -
    have "m * m \<le> \<lfloor>q\<rfloor>" unfolding m_def by (rule isqrt_correct(1) [OF fq])
    then show ?thesis by (simp add: le_floor_iff)
  qed
  have m2: "q < of_int ((m + 1) * (m + 1))"
  proof -
    have "\<lfloor>q\<rfloor> < (m + 1) * (m + 1)" unfolding m_def by (rule isqrt_correct(2) [OF fq])
    then show ?thesis by (simp add: floor_less_iff)
  qed
  have m0: "0 \<le> m" unfolding m_def isqrt_def by (rule isqrt_bits_nonneg) simp
  have mpos: "1 \<le> m"
  proof (rule ccontr)
    assume "\<not> 1 \<le> m"
    with m0 have "m = 0" by simp
    with m2 q1 show False by simp
  qed
  have M: "(1 :: rat) \<le> of_int m" using mpos by simp
  have low: "(of_int n - 1 / 2) * (of_int n - 1 / 2) \<le> q"
    and high: "q \<le> (of_int n + 1 / 2) * (of_int n + 1 / 2)"
    and npos: "1 \<le> n"
  proof -
    have m1': "of_int m * of_int m \<le> q" using m1 by simp
    have m2': "q < (of_int m + 1) * (of_int m + 1)" using m2 by simp
    have a1: "(of_int m - 1 / 2) * (of_int m - 1 / 2) \<le> of_int m * (of_int m :: rat)"
      using M by (simp add: algebra_simps)
    have a2: "(of_int m + 1) * (of_int m + 1) \<le> (of_int m + 1 + 1 / 2) * (of_int m + 1 + 1 / 2 :: rat)"
      using M by (simp add: algebra_simps)
    show "(of_int n - 1 / 2) * (of_int n - 1 / 2) \<le> q"
      using m1' a1 unfolding n_def mid_def by (auto simp: algebra_simps)
    show "q \<le> (of_int n + 1 / 2) * (of_int n + 1 / 2)"
      using m2' a2 unfolding n_def mid_def by (auto simp: algebra_simps)
    show "1 \<le> n" using mpos by (simp add: n_def)
  qed
  have e1: "(sqrt_rounded a - u / 2) * (sqrt_rounded a - u / 2)
      = (of_int n - 1 / 2) * (of_int n - 1 / 2) * (u * u)"
    by (simp add: s algebra_simps)
  have e2: "(sqrt_rounded a + u / 2) * (sqrt_rounded a + u / 2)
      = (of_int n + 1 / 2) * (of_int n + 1 / 2) * (u * u)"
    by (simp add: s algebra_simps)
  have uu0: "0 \<le> u * u" by simp
  have "(of_int n - 1 / 2) * (of_int n - 1 / 2) * (u * u) \<le> q * (u * u)"
    using low uu0 by (rule mult_right_mono)
  then show "(sqrt_rounded a - u / 2) * (sqrt_rounded a - u / 2) \<le> a"
    unfolding e1 a [symmetric] .
  have "q * (u * u) \<le> (of_int n + 1 / 2) * (of_int n + 1 / 2) * (u * u)"
    using high uu0 by (rule mult_right_mono)
  then show "a \<le> (sqrt_rounded a + u / 2) * (sqrt_rounded a + u / 2)"
    unfolding e2 a [symmetric] .
  have "(1 :: rat) \<le> of_int n" using npos by simp
  then have "1 * u \<le> of_int n * u" using u(2) by (intro mult_right_mono) simp_all
  then show "u / 2 \<le> sqrt_rounded a" using u(2) by (simp add: s)
qed



lemma round64_small_ints:
  "round64 1 = Finite 1" "round64 25 = Finite 25" "round64 26 = Finite 26" "round64 2 = Finite 2"
  using round64_int [of 1] round64_int [of 25] round64_int [of 26] round64_int [of 2] by simp_all

lemma sqrt_rounded_values:
  "sqrt_rounded 1 = 1"
  "sqrt_rounded 2 = 6369051672525773 / 4503599627370496"
  "sqrt_rounded 26 = 2870492797671419 / 562949953421312"
  by code_simp+


lemma norm_values:
  "np_linalg_norm [Finite 1, Finite 0] = Finite 1"
  "np_linalg_norm [Finite 0, Finite 1] = Finite 1"
  "np_linalg_norm [Finite 0, Finite 0] = Finite 0"
  "np_linalg_norm [Finite 1, Finite 1] = Finite (6369051672525773 / 4503599627370496)"
  "np_linalg_norm [Finite 1, Finite 5] = Finite (2870492797671419 / 562949953421312)"
  by (simp_all add: np_linalg_norm_def dot_float64_def round64_zero round64_small_ints
      sqrt_rounded_values)

lemma dot_values:
  "dot_float64 [Finite 1, Finite 0] [Finite 0, Finite 1] = Finite 0"
  "dot_float64 [Finite 1, Finite 0] [Finite 1, Finite 0] = Finite 1"
  "dot_float64 [Finite 1, Finite 0] [Finite 0, Finite 0] = Finite 0"
  "dot_float64 [Finite 1, Finite 1] [Finite 1, Finite 0] = Finite 1"
  "dot_float64 [Finite 1, Finite 5] [Finite 1, Finite 5] = Finite 26"
  by (simp_all add: dot_float64_def round64_zero round64_small_ints)



lemma cosine_values:
  "cosine_similarity [Finite 1, Finite 0] [Finite 0, Finite 1] = Inr (Finite 0)"
  "cosine_similarity [Finite 1, Finite 0] [Finite 1, Finite 0] = Inr (Finite 1)"
  "cosine_similarity [Finite 1, Finite 0] [Finite 0, Finite 0] = Inr NaN"
  by (simp_all add: cosine_similarity_def np_dot_def dot_values norm_values round64_zero
      round64_small_ints)


section \<open>Ranking of matches\<close>

lemma float_lt_asym: "float_lt a b \<Longrightarrow> \<not> float_lt b a"
  by (cases a; cases b) simp_all

lemma float_ge_trans:
  "b \<noteq> NaN \<Longrightarrow> \<not> float_lt a b \<Longrightarrow> \<not> float_lt b c \<Longrightarrow> \<not> float_lt a c"
  by (cases a; cases b; cases c) simp_all

lemma float_ge_antisym:
  "a \<noteq> NaN \<Longrightarrow> b \<noteq> NaN \<Longrightarrow> \<not> float_lt a b \<Longrightarrow> \<not> float_lt b a \<Longrightarrow> a = b"
  by (cases a; cases b) simp_all

lemma set_insert_descending: "set (insert_descending x ys) = insert x (set ys)"
  by (induction ys) auto

lemma mset_insert_descending: "mset (insert_descending x ys) = add_mset x (mset ys)"
  by (induction ys) auto

lemma mset_sort_reverse: "mset (sort_reverse xs) = mset xs"
  by (induction xs) (simp_all add: mset_insert_descending)

lemma set_sort_reverse: "set (sort_reverse xs) = set xs"
  by (metis mset_sort_reverse set_mset_mset)

lemma sorted_insert_descending:
  assumes "NaN \<notin> similarity ` set ys"
    and "sorted_wrt (\<lambda>a b. \<not> float_lt (similarity a) (similarity b)) ys"
  shows "sorted_wrt (\<lambda>a b. \<not> float_lt (similarity a) (similarity b)) (insert_descending x ys)"
  using assms
proof (induction ys)
  case Nil
  then show ?case by simp
next
  case (Cons y ys)
  show ?case
  proof (cases "float_lt (similarity x) (similarity y)")
    case True
    with Cons show ?thesis
      by (auto simp: set_insert_descending float_lt_asym)
  next
    case False
    have y: "similarity y \<noteq> NaN" using Cons.prems(1) by force
    have "\<not> float_lt (similarity x) (similarity z)" if "z \<in> set ys" for z
      using float_ge_trans [OF y False] Cons.prems(2) that by auto
    with False Cons.prems(2) show ?thesis by auto
  qed
qed

lemma sorted_sort_reverse:
  assumes "NaN \<notin> similarity ` set xs"
  shows "sorted_wrt (\<lambda>a b. \<not> float_lt (similarity a) (similarity b)) (sort_reverse xs)"
  using assms
proof (induction xs)
  case Nil
  then show ?case by simp
next
  case (Cons x xs)
  then have "NaN \<notin> similarity ` set (sort_reverse xs)" by (simp add: set_sort_reverse)
  with Cons show ?case by (simp add: sorted_insert_descending)
qed

lemma descending_unique:
  assumes "mset ks = mset ks'" "descending ks" "descending ks'"
  shows "ks = ks'"
  using assms
proof (induction ks arbitrary: ks')
  case Nil
  then show ?case by simp
next
  case (Cons k ks)
  then obtain k' ks'' where ks': "ks' = k' # ks''" by (cases ks') auto
  have nn: "k \<noteq> NaN" "k' \<noteq> NaN" using Cons.prems ks' by (auto simp: descending_def)
  have "k' \<in> set (k # ks)" using Cons.prems(1) ks' by (metis list.set_intros(1) mset_eq_setD)
  then have a: "\<not> float_lt k k'"
    using Cons.prems(2) by (cases k) (auto simp: descending_def)
  have "k \<in> set (k' # ks'')" using Cons.prems(1) ks' by (metis list.set_intros(1) mset_eq_setD)
  then have b: "\<not> float_lt k' k"
    using Cons.prems(3) ks' by (cases k') (auto simp: descending_def)
  from float_ge_antisym [OF nn a b] have e: "k = k'" .
  with Cons.prems ks' have "mset ks = mset ks''" "descending ks" "descending ks''"
    by (auto simp: descending_def)
  with Cons.IH e ks' show ?case by simp
qed

lemma calculate_similarities_Inr:
  "calculate_similarities sim p es = Inr ms \<Longrightarrow>
   ms = map (match_of sim p) es \<and> (\<forall>st \<in> set es. \<not> isl (sim p (stored_embedding st)))"
  by (induction es arbitrary: ms) (auto simp: match_of_def split: sum.splits)

lemma calculate_similarities_total:
  "\<forall>st \<in> set es. \<not> isl (sim p (stored_embedding st)) \<Longrightarrow>
   calculate_similarities sim p es = Inr (map (match_of sim p) es)"
  by (induction es) (auto simp: match_of_def split: sum.splits)

lemma descending_sort_reverse:
  "NaN \<notin> similarity ` set xs \<Longrightarrow> descending (map similarity (sort_reverse xs))"
  using sorted_sort_reverse [of xs]
  by (simp add: descending_def sorted_wrt_map set_sort_reverse)

lemma compare_axis_faces:
  "compare_faces [Finite 1, Finite 0] axis_faces
     = Matches [\<lparr>photoId = 2, similarity = Finite 1\<rparr>, \<lparr>photoId = 1, similarity = Finite 0\<rparr>]"
  "compare_faces [Finite 1, Finite 0] (rev axis_faces)
     = Matches [\<lparr>photoId = 2, similarity = Finite 1\<rparr>, \<lparr>photoId = 1, similarity = Finite 0\<rparr>]"
  by (simp_all add: compare_faces_def compare_faces_with_def axis_faces_def cosine_values)

text \<open>
  C5, as the claim states it, fails when a stored embedding is the zero vector: its
  similarity is NaN, the sort leaves the two matches in the order of the input, and the
  two orders of the input give two different rankings, neither of them descending.
\<close>

theorem compare_faces_unsorted_with_nan:
  "compare_faces [Finite 1, Finite 0] faces_with_zero
     = Matches [\<lparr>photoId = 1, similarity = NaN\<rparr>, \<lparr>photoId = 2, similarity = Finite 1\<rparr>]
   \<and> compare_faces [Finite 1, Finite 0] (rev faces_with_zero)
     = Matches [\<lparr>photoId = 2, similarity = Finite 1\<rparr>, \<lparr>photoId = 1, similarity = NaN\<rparr>]
   \<and> \<not> descending [NaN, Finite 1]
   \<and> float_lt NaN (Finite 1) = False \<and> float_lt (Finite 1) NaN = False"
  by (simp add: compare_faces_def compare_faces_with_def faces_with_zero_def cosine_values
      descending_def)

text \<open>
  C5, amended. Whatever function computes the similarities: if the comparison returns
  matches and none of their similarities is NaN, the similarities are in descending order,
  and every permutation of the stored faces gives matches with the same sequence of
  similarities and the same multiset of matches. \<open>compare_faces\<close> is the instance with the
  cosine similarity, as in the witness.
\<close>

theorem compare_faces_ranking:
  assumes "compare_faces_with sim selfie_embedding embeddings = Matches ms"
    and "NaN \<notin> similarity ` set ms"
  shows "descending (map similarity ms)
    \<and> (\<forall>embeddings'. mset embeddings' = mset embeddings \<longrightarrow>
          (\<exists>ms'. compare_faces_with sim selfie_embedding embeddings' = Matches ms'
             \<and> map similarity ms' = map similarity ms \<and> mset ms' = mset ms))"
proof -
  from assms(1) obtain raw where ne: "embeddings \<noteq> []"
    and raw: "calculate_similarities sim selfie_embedding embeddings = Inr raw"
    and ms: "ms = sort_reverse raw"
    by (auto simp: compare_faces_with_def split: if_splits sum.splits)
  from calculate_similarities_Inr [OF raw]
  have raw_eq: "raw = map (match_of sim selfie_embedding) embeddings"
    and ok: "\<forall>st \<in> set embeddings. \<not> isl (sim selfie_embedding (stored_embedding st))"
    by simp_all
  have nn: "NaN \<notin> similarity ` set raw" using assms(2) by (simp add: ms set_sort_reverse)
  have d: "descending (map similarity ms)" unfolding ms by (rule descending_sort_reverse [OF nn])
  have "\<exists>ms'. compare_faces_with sim selfie_embedding embeddings' = Matches ms'
             \<and> map similarity ms' = map similarity ms \<and> mset ms' = mset ms"
    if p: "mset embeddings' = mset embeddings" for embeddings'
  proof -
    have s: "set embeddings' = set embeddings" using p by (rule mset_eq_setD)
    have ne': "embeddings' \<noteq> []" using p ne by auto
    define raw' where "raw' = map (match_of sim selfie_embedding) embeddings'"
    have c: "calculate_similarities sim selfie_embedding embeddings' = Inr raw'"
      unfolding raw'_def using ok s by (intro calculate_similarities_total) simp
    have m: "mset raw' = mset raw"
      unfolding raw'_def raw_eq using p by (metis mset_map)
    then have nn': "NaN \<notin> similarity ` set raw'" using nn by (metis mset_eq_setD)
    have r: "compare_faces_with sim selfie_embedding embeddings' = Matches (sort_reverse raw')"
      using ne' c by (simp add: compare_faces_with_def)
    have mm: "mset (sort_reverse raw') = mset ms" by (simp add: mset_sort_reverse m ms)
    then have "mset (map similarity (sort_reverse raw')) = mset (map similarity ms)"
      by (metis mset_map)
    from descending_unique [OF this descending_sort_reverse [OF nn'] d]
    have "map similarity (sort_reverse raw') = map similarity ms" .
    with r mm show ?thesis by blast
  qed
  with d show ?thesis by blast
qed

theorem compare_faces_ranking_witness:
  "compare_faces_with cosine_similarity [Finite 1, Finite 0] axis_faces
     = Matches [\<lparr>photoId = 2, similarity = Finite 1\<rparr>, \<lparr>photoId = 1, similarity = Finite 0\<rparr>]
   \<and> NaN \<notin> similarity ` set [\<lparr>photoId = 2 :: nat, similarity = Finite 1\<rparr>,
                                \<lparr>photoId = 1, similarity = Finite 0\<rparr>]
   \<and> mset (rev axis_faces) = mset axis_faces
   \<and> descending [Finite 1, Finite 0]
   \<and> compare_faces_with cosine_similarity [Finite 1, Finite 0] (rev axis_faces)
       = Matches [\<lparr>photoId = 2, similarity = Finite 1\<rparr>, \<lparr>photoId = 1, similarity = Finite 0\<rparr>]"
proof -
  let ?ms = "[\<lparr>photoId = 2 :: nat, similarity = Finite 1\<rparr>, \<lparr>photoId = 1, similarity = Finite 0\<rparr>]"
  have r: "compare_faces_with cosine_similarity [Finite 1, Finite 0] axis_faces = Matches ?ms"
    using compare_axis_faces(1) by (simp add: compare_faces_def)
  have n: "NaN \<notin> similarity ` set ?ms" by simp
  have p: "mset (rev axis_faces) = mset axis_faces" by simp
  from compare_faces_ranking [OF r n] p
  have "descending (map similarity ?ms)"
    and "\<exists>ms'. compare_faces_with cosine_similarity [Finite 1, Finite 0] (rev axis_faces) = Matches ms'
           \<and> map similarity ms' = map similarity ?ms \<and> mset ms' = mset ?ms"
    by blast+
  moreover have "compare_faces_with cosine_similarity [Finite 1, Finite 0] (rev axis_faces) = Matches ?ms"
    using compare_axis_faces(2) by (simp add: compare_faces_def)
  ultimately show ?thesis using r n p by simp
qed

section \<open>The range of the similarity\<close>













section \<open>Admission to processing\<close>

lemma run_append: "run (xs @ ys) s = (case run xs s of None \<Rightarrow> None | Some s' \<Rightarrow> run ys s')"
  by (induction xs arbitrary: s) (auto split: option.splits)

lemma admit_next:
  assumes "k < n"
  shows "run [k, k] \<lparr>requests = map Processing [0..<k] @ replicate (n - k) Entered,
                       semaphores = replicate k (app_MAX_WORKERS - 1)\<rparr>
         = Some \<lparr>requests = map Processing [0..<Suc k] @ replicate (n - Suc k) Entered,
                  semaphores = replicate (Suc k) (app_MAX_WORKERS - 1)\<rparr>"
proof -
  from assms obtain j where j: "n - k = Suc j" "n - Suc k = j"
    by (metis Suc_diff_Suc)
  show ?thesis
    unfolding j
    by (simp add: step_def nth_append list_update_append app_MAX_WORKERS_def
        replicate_append_same)
qed

lemma admit_all_upto:
  "k \<le> n \<Longrightarrow>
   run (concat (map (\<lambda>i. [i, i]) [0..<k])) (arrivals n)
     = Some \<lparr>requests = map Processing [0..<k] @ replicate (n - k) Entered,
              semaphores = replicate k (app_MAX_WORKERS - 1)\<rparr>"
proof (induction k)
  case 0
  then show ?case by (simp add: arrivals_def)
next
  case (Suc k)
  then have "k < n" "k \<le> n" by simp_all
  from Suc.IH [OF this(2)] admit_next [OF this(1)] show ?case
    by (simp add: run_append del: run.simps replicate_Suc upt_Suc) (simp add: run_append)
qed

lemma process_photo_never_blocks:
  "\<exists>schedule s. run schedule (arrivals n) = Some s \<and> admitted s = n"
proof -
  have "run (concat (map (\<lambda>i. [i, i]) [0..<n])) (arrivals n)
     = Some \<lparr>requests = map Processing [0..<n] @ replicate (n - n) Entered,
              semaphores = replicate n (app_MAX_WORKERS - 1)\<rparr>"
    by (rule admit_all_upto) simp
  moreover have "filter is_processing (map Processing [0..<n]) = map Processing [0..<n]"
    by (induction n) simp_all
  ultimately show ?thesis by (auto simp: admitted_def intro!: exI)
qed

text \<open>
  C8. The code does not bound the admissions: with \<^verbatim>\<open>MAX_WORKERS = 2\<close>, three requests
  that arrive together are all inside the \<^verbatim>\<open>with\<close> block at once. Each has acquired its
  own semaphore, whose counter went from 2 to 1, and none has blocked. By
  \<open>process_photo_never_blocks\<close> the same holds for any number of requests.
\<close>

theorem process_photo_admits_three_of_two:
  "app_MAX_WORKERS = 2
   \<and> run [0, 0, 1, 1, 2, 2] (arrivals 3)
       = Some \<lparr>requests = [Processing 0, Processing 1, Processing 2], semaphores = [1, 1, 1]\<rparr>
   \<and> admitted \<lparr>requests = [Processing 0, Processing 1, Processing 2], semaphores = [1, 1, 1]\<rparr> = 3"
  by (simp add: step_def arrivals_def admitted_def app_MAX_WORKERS_def numeral_3_eq_3)

end
